theory Spec2Isabelle
  imports Main "HOL-Library.Sublist"
begin

section \<open>Strings and console output\<close>

text \<open>
  A Python \<open>str\<close> is modelled as a \<open>string\<close>, one \<open>char\<close> for each code point; the
  model covers the code points below 256. The accented letters of the script's templates
  are among them and are written by their code (\<open>CHR 0xF3\<close> is o-acute).
\<close>

definition nl :: char where
  "nl = CHR 0x0A"

definition dq :: char where
  "dq = CHR 0x22"

definition sq :: char where
  "sq = CHR 0x27"

text \<open>
  \<open>str.isspace\<close> on the code points below 256: TAB, LF, VT, FF, CR, the four separators
  FS, GS, RS, US, the space, NEL and the no-break space.
\<close>

definition is_space :: "char \<Rightarrow> bool" where
  "is_space c = (of_char c \<in> {9, 10, 11, 12, 13, 28, 29, 30, 31, 32, 133, 160 :: nat})"

text \<open>\<open>str.strip()\<close>: drop the whitespace at both ends.\<close>

definition lstrip :: "string \<Rightarrow> string" where
  "lstrip s = dropWhile is_space s"

definition rstrip :: "string \<Rightarrow> string" where
  "rstrip s = rev (dropWhile is_space (rev s))"

definition strip :: "string \<Rightarrow> string" where
  "strip s = rstrip (lstrip s)"

text \<open>The colour table \<open>C\<close> of the script (ANSI escape sequences).\<close>

definition esc :: char where
  "esc = CHR 0x1B"

definition colours :: "(string \<times> string) list" where
  "colours =
    [(''R'', esc # ''[0;31m''), (''G'', esc # ''[0;32m''), (''B'', esc # ''[0;34m''),
     (''Y'', esc # ''[1;33m''), (''C'', esc # ''[0;36m''), (''P'', esc # ''[0;35m''),
     (''O'', esc # ''[0;33m''), (''N'', esc # ''[0m''), (''BOLD'', esc # ''[1m'')]"

definition C :: "string \<Rightarrow> string" where
  "C k = the (map_of colours k)"

text \<open>
  What the script does to the outside world is recorded as a list of events, oldest first:
  a line printed on standard output or on standard error (\<open>print\<close> adds the line end,
  which is not recorded), text printed with \<open>end=""\<close>, a call of \<open>input\<close> (its
  prompt), a \<open>time.sleep\<close> (its seconds), and a call of \<open>subprocess.run\<close> (its
  command).
\<close>

datatype event =
    Stdout string
  | Stdout_part string
  | Stderr string
  | Input string
  | Sleep nat
  | Run string

text \<open>
  How a call ends: it returns a value, or \<open>sys.exit\<close> ends the process with a status, or
  an exception that nothing catches ends it. Where \<open>sys.exit\<close> has to be given as an
  exception, it is \<open>SystemExit\<close>, which it raises.
\<close>

datatype exn = JSONDecodeError | AttributeError | NotADirectoryError | FileNotFoundError | KeyError
  | TypeError | ZeroDivisionError | OverflowError | UnicodeDecodeError | ValueError | OSError
  | SystemExit

datatype 'a outcome = Returns 'a | Exits int | Raises exn

definition msg :: "string \<Rightarrow> string \<Rightarrow> string \<Rightarrow> event" where
  "msg text kind color = Stdout (C color @ ''['' @ kind @ '']'' @ C ''N'' @ '' '' @ text)"

text \<open>\<open>msg(text)\<close>, with the defaults \<open>INFO\<close> and \<open>B\<close> of its other arguments.\<close>

definition msg_info :: "string \<Rightarrow> event" where
  "msg_info text = msg text ''INFO'' ''B''"

definition success :: "string \<Rightarrow> event" where
  "success text = msg text ''SUCCESS'' ''G''"

definition warning :: "string \<Rightarrow> event" where
  "warning text = msg text ''WARNING'' ''Y''"

definition error :: "string \<Rightarrow> event" where
  "error text = Stderr (C ''R'' @ ''[ERROR]'' @ C ''N'' @ '' '' @ text)"

text \<open>\<open>error_exit\<close>: the error line, then \<open>sys.exit(1)\<close>.\<close>

definition error_exit :: "string \<Rightarrow> event list \<times> 'a outcome" where
  "error_exit text = ([error text], Exits 1)"

section \<open>Running a shell command\<close>

text \<open>
  The completed child process as \<open>subprocess.run\<close> reports it. The shell itself is
  outside the script: it is a parameter \<open>sh\<close> that maps a command line to its
  completed process, or to the exception that \<open>subprocess.run\<close> raises instead of
  completing: \<open>UnicodeDecodeError\<close> when, with \<open>text=True\<close>, the output is not text in
  the encoding of the locale, \<open>ValueError\<close> for a command that holds a NUL character,
  \<open>OSError\<close> when the shell cannot be started. \<open>CalledProcessError\<close> is not among
  them: \<open>check=True\<close> raises it for a process that completed with a return code other
  than zero.
\<close>

record proc =
  returncode :: int
  stdout :: string
  stderr :: string

text \<open>
  \<open>run_command\<close>. With \<open>check=True\<close> a non-zero return code raises
  \<open>CalledProcessError\<close>, which the function catches; it catches nothing else, so every
  other exception of \<open>subprocess.run\<close> leaves the function.
\<close>

definition run_command ::
  "(string \<Rightarrow> exn + proc) \<Rightarrow> string \<Rightarrow> bool \<Rightarrow> bool \<Rightarrow> event list \<times> string option outcome" where
  "run_command sh command exit_on_error show_output =
    (case sh command of
       Inl e \<Rightarrow> ([Run command], Raises e)
     | Inr result \<Rightarrow>
         if returncode result = 0 then
           (Run command # (if show_output then [Stdout (stdout result)] else []),
            Returns (Some (strip (stdout result))))
         else if exit_on_error then
           (case error_exit (''Error: '' @ command @ [nl] @ ''Salida: '' @ stderr result) of
              (evs, r) \<Rightarrow> (Run command # evs, r))
         else ([Run command], Returns None))"

text \<open>
  A shell in which the command \<open>printf 'ab\377'\<close> completes with return code 0 and
  writes a byte that is not text in UTF-8, so that \<open>subprocess.run\<close> raises when it
  decodes the output; every other command completes with no output.
\<close>

definition printf_cmd :: string where
  "printf_cmd = ''printf '' @ [sq] @ ''ab'' @ [CHR 0x5C] @ ''377'' @ [sq]"

definition sh_undecodable :: "string \<Rightarrow> exn + proc" where
  "sh_undecodable c =
     (if c = printf_cmd then Inl UnicodeDecodeError
      else Inr \<lparr>returncode = 0, stdout = [], stderr = []\<rparr>)"

section \<open>Asking the operator\<close>

text \<open>
  The part of Python's regular expressions that the patterns of the script are written in:
  a pattern is a sequence of items, an item is \<open>^\<close>, \<open>$\<close>, or an atom with a
  repetition; an atom is \<open>.\<close> or a bracket class, given by its ranges (a single
  character is the range from it to itself). \<open>re.match\<close> looks for a match that starts at
  the first character of the subject and may end anywhere. Without flags, \<open>.\<close> is every
  character but the line feed, \<open>^\<close> holds only at the start of the subject, and \<open>$\<close>
  holds at its end and also just before a line feed that ends it.
\<close>

datatype atom = Any | Class "(char \<times> char) list"

datatype quant = Once | Exactly nat | Star | Plus

datatype item = Bol | Eol | Rep atom quant

definition in_range :: "char \<Rightarrow> char \<times> char \<Rightarrow> bool" where
  "in_range c r = ((of_char (fst r) :: nat) \<le> of_char c \<and> (of_char c :: nat) \<le> of_char (snd r))"

fun atom_ok :: "atom \<Rightarrow> char \<Rightarrow> bool" where
  "atom_ok Any c = (c \<noteq> nl)"
| "atom_ok (Class rs) c = list_ex (in_range c) rs"

text \<open>
  The numbers of characters a repeated atom can take from the front of \<open>s\<close>, the
  largest first, as the greedy repetitions try them.
\<close>

fun counts :: "atom \<Rightarrow> quant \<Rightarrow> string \<Rightarrow> nat list" where
  "counts a Once s = (case s of [] \<Rightarrow> [] | c # cs \<Rightarrow> if atom_ok a c then [1] else [])"
| "counts a (Exactly n) s =
     (if n \<le> length (takeWhile (atom_ok a) s) then [n] else [])"
| "counts a Star s = rev [0 ..< Suc (length (takeWhile (atom_ok a) s))]"
| "counts a Plus s = rev [1 ..< Suc (length (takeWhile (atom_ok a) s))]"

text \<open>
  \<open>matches p pos s\<close>: the pattern \<open>p\<close> matches at offset \<open>pos\<close> of the subject, whose
  rest from there is \<open>s\<close>.
\<close>

fun matches :: "item list \<Rightarrow> nat \<Rightarrow> string \<Rightarrow> bool" where
  "matches [] pos s = True"
| "matches (Bol # p) pos s = (pos = 0 \<and> matches p pos s)"
| "matches (Eol # p) pos s = ((s = [] \<or> s = [nl]) \<and> matches p pos s)"
| "matches (Rep a q # p) pos s = list_ex (\<lambda>n. matches p (pos + n) (drop n s)) (counts a q s)"

definition re_match :: "item list \<Rightarrow> string \<Rightarrow> bool" where
  "re_match p s = matches p 0 s"

text \<open>
  \<open>ask\<close>. The lines the operator types are a parameter: \<open>inp k\<close> is the \<open>k\<close>-th line
  that \<open>input\<close> returns, without its line end. The state is the number of lines read so
  far and the events so far; \<open>dflt\<close> is the argument \<open>default\<close>. \<open>validation\<close> is
  \<open>None\<close> or a pattern, and \<open>rematch\<close> says whether \<open>re.match\<close> finds a match of a
  pattern. The loop has no bound: \<open>None\<close> is the call that never returns.
\<close>

definition user_input_of :: "string \<Rightarrow> string \<Rightarrow> string" where
  "user_input_of line dflt = (if strip line = [] then dflt else strip line)"

definition ask_prompt :: "string \<Rightarrow> string \<Rightarrow> string" where
  "ask_prompt prompt dflt = C ''C'' @ prompt @ '' ['' @ dflt @ '']: '' @ C ''N''"

partial_function (option) ask ::
  "('p \<Rightarrow> string \<Rightarrow> bool) \<Rightarrow> (nat \<Rightarrow> string) \<Rightarrow> string \<Rightarrow> string \<Rightarrow> 'p option \<Rightarrow> string \<Rightarrow>
   nat \<Rightarrow> event list \<Rightarrow> (string \<times> nat \<times> event list) option" where
  "ask rematch inp prompt dflt validation error_msg k evs =
    (let user_input = user_input_of (inp k) dflt;
         evs1 = evs @ [Input (ask_prompt prompt dflt)]
     in if (case validation of None \<Rightarrow> True | Some p \<Rightarrow> rematch p user_input)
        then Some (user_input, Suc k, evs1)
        else ask rematch inp prompt dflt validation error_msg (Suc k)
               (evs1 @ [warning error_msg]))"

text \<open>The default of \<open>error_msg\<close>.\<close>

definition valor_invalido :: string where
  "valor_invalido = ''Valor inv'' @ [CHR 0xE1] @ ''lido''"

text \<open>The pattern of the container id in \<open>main\<close>, \<open>^[1-9][0-9]{2}$\<close>, and its prompt.\<close>

definition vm_id_pattern :: "item list" where
  "vm_id_pattern =
    [Bol, Rep (Class [(CHR ''1'', CHR ''9'')]) Once,
     Rep (Class [(CHR ''0'', CHR ''9'')]) (Exactly 2), Eol]"

definition ask_vm_id :: "(nat \<Rightarrow> string) \<Rightarrow> nat \<Rightarrow> event list \<Rightarrow> (string \<times> nat \<times> event list) option" where
  "ask_vm_id inp k evs =
     ask re_match inp ''ID del contenedor (100-999)'' ''100'' (Some vm_id_pattern) valor_invalido k evs"

text \<open>
  What the container id is meant to be: three decimal digits whose value is at least 100
  and at most 999.
\<close>

definition is_digit :: "char \<Rightarrow> bool" where
  "is_digit c = ((48::nat) \<le> of_char c \<and> (of_char c :: nat) \<le> 57)"

definition decimal :: "string \<Rightarrow> nat" where
  "decimal s = foldl (\<lambda>n c. 10 * n + (of_char c - 48)) 0 s"

definition numeral_100_999 :: "string \<Rightarrow> bool" where
  "numeral_100_999 s =
     (length s = 3 \<and> list_all is_digit s \<and> 100 \<le> decimal s \<and> decimal s \<le> 999)"

section \<open>Waiting for the container\<close>

text \<open>
  A value read by \<open>json.loads\<close>. The type \<open>'f\<close> stands for Python's \<open>float\<close>; an
  object is the list of its members, each key once. \<open>json.loads\<close> is a parameter
  \<open>loads\<close>, with \<open>None\<close> for a text it refuses (\<open>JSONDecodeError\<close>).
\<close>

datatype 'f json =
    JNull
  | JBool bool
  | JInt int
  | JFloat 'f
  | JStr string
  | JArr "'f json list"
  | JObj "(string \<times> 'f json) list"

text \<open>\<open>value.get(key)\<close>: only a \<open>dict\<close> has the method; a missing key gives \<open>None\<close>.\<close>

fun json_get :: "'f json \<Rightarrow> string \<Rightarrow> exn + 'f json option" where
  "json_get (JObj kvs) key = Inr (map_of kvs key)"
| "json_get _ key = Inl AttributeError"

definition status_cmd :: "string \<Rightarrow> string \<Rightarrow> string" where
  "status_cmd hostname_cmd vm_id =
     ''pvesh get /nodes/'' @ hostname_cmd @ ''/lxc/'' @ vm_id @
     ''/status/current --output-format=json''"

definition ping_cmd :: "string \<Rightarrow> string" where
  "ping_cmd vm_id = ''pct exec '' @ vm_id @ '' -- ping -c 1 8.8.8.8''"

text \<open>
  The host changes while the script waits, so the shell of the polling loop depends on
  the attempt: \<open>sh a c\<close> is what \<open>subprocess.run\<close> gives for the command \<open>c\<close> during
  attempt \<open>a\<close>. With \<open>exit_on_error\<close> false \<open>run_command\<close> never calls
  \<open>sys.exit\<close>; the case is there because the type has it.

  One pass through the body of the loop, for the value \<open>a\<close> of \<open>attempt\<close>. It gives
  the events of the pass, the new value of \<open>network_check_shown\<close>, and how the pass
  ends: at the end of the body, by \<open>break\<close>, or by an exception.
\<close>

datatype pass_end = Continue | Break | Raise exn

definition poll_body ::
  "(nat \<Rightarrow> string \<Rightarrow> exn + proc) \<Rightarrow> (string \<Rightarrow> 'f json option) \<Rightarrow> string \<Rightarrow> string \<Rightarrow>
   nat \<Rightarrow> bool \<Rightarrow> event list \<times> bool \<times> pass_end" where
  "poll_body sh loads hostname_cmd vm_id a network_check_shown =
    (let (evs1, r1) = run_command (sh a) (status_cmd hostname_cmd vm_id) False False;
         evs = Sleep 5 # evs1
     in case r1 of
          Raises e \<Rightarrow> (evs, network_check_shown, Raise e)
        | Exits n \<Rightarrow> (evs, network_check_shown, Raise SystemExit)
        | Returns None \<Rightarrow> (evs @ [Stdout_part ''.''], network_check_shown, Continue)
        | Returns (Some status_json) \<Rightarrow>
            if status_json \<noteq> [] then
              (case loads status_json of
                 None \<Rightarrow> (evs, network_check_shown, Raise JSONDecodeError)
               | Some status_data \<Rightarrow>
                  (case json_get status_data ''status'' of
                     Inl e \<Rightarrow> (evs, network_check_shown, Raise e)
                   | Inr status \<Rightarrow>
                       if status = Some (JStr ''running'') then
                         (let evs2 = (if \<not> network_check_shown
                                then [msg_info (''El contenedor est'' @ [CHR 0xE1] @
                                  '' en ejecuci'' @ [CHR 0xF3] @
                                  ''n, verificando conectividad de red...'')]
                                else []);
                              (evs3, ping_result) =
                                run_command (sh a) (ping_cmd vm_id) False False
                          in case ping_result of
                               Raises e \<Rightarrow> (evs @ evs2 @ evs3, True, Raise e)
                             | Exits n \<Rightarrow> (evs @ evs2 @ evs3, True, Raise SystemExit)
                             | Returns None \<Rightarrow>
                                 (evs @ evs2 @ evs3 @ [Stdout_part ''.''], True, Continue)
                             | Returns (Some ping_text) \<Rightarrow> (evs @ evs2 @ evs3, True, Break))
                       else (evs @ [Stdout_part ''.''], network_check_shown, Continue)))
            else (evs @ [Stdout_part ''.''], network_check_shown, Continue))"

text \<open>
  The loop \<open>for attempt in range(30)\<close>, over the values still to come. The state is the
  last value given to \<open>attempt\<close>, \<open>network_check_shown\<close> and the events so far; the
  result says in addition whether the loop ran to its end (\<open>Continue\<close>), was left by
  \<open>break\<close>, or was ended by an exception.
\<close>

record poll_state =
  attempt :: nat
  network_check_shown :: bool
  events :: "event list"

fun poll_loop ::
  "(nat \<Rightarrow> string \<Rightarrow> exn + proc) \<Rightarrow> (string \<Rightarrow> 'f json option) \<Rightarrow> string \<Rightarrow> string \<Rightarrow>
   nat list \<Rightarrow> poll_state \<Rightarrow> poll_state \<times> pass_end" where
  "poll_loop sh loads hostname_cmd vm_id [] st = (st, Continue)"
| "poll_loop sh loads hostname_cmd vm_id (a # as) st =
    (case poll_body sh loads hostname_cmd vm_id a (network_check_shown st) of
       (evs, shown, e) \<Rightarrow>
         (let st' = \<lparr>attempt = a, network_check_shown = shown, events = events st @ evs\<rparr>
          in case e of
               Continue \<Rightarrow> poll_loop sh loads hostname_cmd vm_id as st'
             | _ \<Rightarrow> (st', e)))"

definition limited_warning :: event where
  "limited_warning =
     warning (''La conectividad de red podr'' @ [CHR 0xED] @
              ''a ser limitada. Continuando de todos modos...'')"

text \<open>
  The part of \<open>main\<close> that waits for the container: from the message that announces the
  wait to the message that the network is fine. \<open>range(30)\<close> is not empty, so
  \<open>attempt\<close> has a value when the loop is over; its value before the loop is never
  read. The result is the events, and the exception that ended the script if there was
  one.
\<close>

definition wait_for_container ::
  "(nat \<Rightarrow> string \<Rightarrow> exn + proc) \<Rightarrow> (string \<Rightarrow> 'f json option) \<Rightarrow> string \<Rightarrow> string \<Rightarrow>
   event list \<times> exn option" where
  "wait_for_container sh loads hostname_cmd vm_id =
    (case poll_loop sh loads hostname_cmd vm_id [0 ..< 30]
            \<lparr>attempt = 0, network_check_shown = False,
             events = [msg_info ''Esperando a que el contenedor se inicie...'']\<rparr> of
       (st, Raise e) \<Rightarrow> (events st, Some e)
     | (st, _) \<Rightarrow>
         (events st @ [Stdout ''''] @
          (if attempt st \<ge> 29 then [limited_warning] else []) @
          [success ''Red OK, contenedor iniciado''], None))"

text \<open>
  What an attempt finds. It succeeds when the status query returns a text that is not
  empty, the text is a JSON object whose \<open>status\<close> is \<open>running\<close>, and the ping inside
  the container returns a result. It ends with an exception when \<open>subprocess.run\<close>
  raises for the status query, when the text of the status query is not JSON or not an
  object, or when the status is \<open>running\<close> and \<open>subprocess.run\<close> raises for the ping.
\<close>

definition status_text :: "(nat \<Rightarrow> string \<Rightarrow> exn + proc) \<Rightarrow> string \<Rightarrow> string \<Rightarrow> nat \<Rightarrow> string" where
  "status_text sh hostname_cmd vm_id a =
     (case sh a (status_cmd hostname_cmd vm_id) of
        Inl e \<Rightarrow> []
      | Inr r \<Rightarrow> if returncode r = 0 then strip (stdout r) else [])"

definition reports_running ::
  "(nat \<Rightarrow> string \<Rightarrow> exn + proc) \<Rightarrow> (string \<Rightarrow> 'f json option) \<Rightarrow> string \<Rightarrow> string \<Rightarrow> nat \<Rightarrow> bool" where
  "reports_running sh loads hostname_cmd vm_id a =
     (status_text sh hostname_cmd vm_id a \<noteq> [] \<and>
      (case loads (status_text sh hostname_cmd vm_id a) of
         Some (JObj kvs) \<Rightarrow> map_of kvs ''status'' = Some (JStr ''running'')
       | _ \<Rightarrow> False))"

definition attempt_succeeds ::
  "(nat \<Rightarrow> string \<Rightarrow> exn + proc) \<Rightarrow> (string \<Rightarrow> 'f json option) \<Rightarrow> string \<Rightarrow> string \<Rightarrow> nat \<Rightarrow> bool" where
  "attempt_succeeds sh loads hostname_cmd vm_id a =
     (reports_running sh loads hostname_cmd vm_id a \<and>
      (case sh a (ping_cmd vm_id) of Inl e \<Rightarrow> False | Inr r \<Rightarrow> returncode r = 0))"

definition attempt_raises ::
  "(nat \<Rightarrow> string \<Rightarrow> exn + proc) \<Rightarrow> (string \<Rightarrow> 'f json option) \<Rightarrow> string \<Rightarrow> string \<Rightarrow> nat \<Rightarrow> bool" where
  "attempt_raises sh loads hostname_cmd vm_id a =
     (case sh a (status_cmd hostname_cmd vm_id) of
        Inl e \<Rightarrow> True
      | Inr r \<Rightarrow>
          status_text sh hostname_cmd vm_id a \<noteq> [] \<and>
          (case loads (status_text sh hostname_cmd vm_id a) of
             Some (JObj kvs) \<Rightarrow>
               map_of kvs ''status'' = Some (JStr ''running'') \<and>
               (case sh a (ping_cmd vm_id) of Inl e \<Rightarrow> True | Inr p \<Rightarrow> False)
           | _ \<Rightarrow> True))"

text \<open>The number of times an event occurs in a list of events.\<close>

definition occurrences :: "event \<Rightarrow> event list \<Rightarrow> nat" where
  "occurrences e evs = length (filter (\<lambda>x. x = e) evs)"

text \<open>
  The events of one attempt: the sleep of five seconds, then the status query, then
  events that are neither a sleep nor a status query.
\<close>

definition is_attempt :: "string \<Rightarrow> event list \<Rightarrow> bool" where
  "is_attempt query evs =
     (case evs of
        e1 # e2 # rest \<Rightarrow>
          e1 = Sleep 5 \<and> e2 = Run query \<and>
          list_all (\<lambda>x. x \<noteq> Run query \<and> (case x of Sleep n \<Rightarrow> False | _ \<Rightarrow> True)) rest
      | _ \<Rightarrow> False)"

text \<open>
  The number of passes the loop makes over the values \<open>as\<close>: it stops after the first
  attempt that succeeds or raises.
\<close>

fun attempts_made ::
  "(nat \<Rightarrow> string \<Rightarrow> exn + proc) \<Rightarrow> (string \<Rightarrow> 'f json option) \<Rightarrow> string \<Rightarrow> string \<Rightarrow> nat list \<Rightarrow> nat" where
  "attempts_made sh loads hostname_cmd vm_id [] = 0"
| "attempts_made sh loads hostname_cmd vm_id (a # as) =
     (if attempt_succeeds sh loads hostname_cmd vm_id a \<or>
         attempt_raises sh loads hostname_cmd vm_id a
      then 1 else Suc (attempts_made sh loads hostname_cmd vm_id as))"

text \<open>
  A host on which the container is ready only in the attempt \<open>n\<close>: before that every
  command fails, and in the attempt \<open>n\<close> the status query reports \<open>running\<close> and the
  ping succeeds. \<open>loads_status\<close> reads the one status text of that host.
\<close>

definition sh_ready_at :: "nat \<Rightarrow> nat \<Rightarrow> string \<Rightarrow> exn + proc" where
  \<open>sh_ready_at n a c =
     (if a = n then Inr \<lparr>returncode = 0, stdout = ''{"status":"running"}'', stderr = ''''\<rparr>
      else Inr \<lparr>returncode = 1, stdout = '''', stderr = ''''\<rparr>)\<close>

definition loads_status :: "string \<Rightarrow> unit json option" where
  \<open>loads_status s =
     (if s = ''{"status":"running"}'' then Some (JObj [(''status'', JStr ''running'')])
      else None)\<close>

section \<open>The network configuration file\<close>

text \<open>A line of a generated file: the text and the line feed that ends it.\<close>

definition ln :: "string \<Rightarrow> string" where
  "ln s = s @ [nl]"

text \<open>
  The text that \<open>main\<close> writes to \<open>/tmp/01-netcfg.yaml\<close> for a public address, from
  \<open>config['ip_address']\<close>, \<open>config['gateway']\<close> and \<open>config['dns_servers']\<close>.
\<close>

definition netplan_config :: "string \<Rightarrow> string \<Rightarrow> string \<Rightarrow> string" where
  "netplan_config ip_address gateway dns_servers =
     ln (''# Configuraci'' @ [CHR 0xF3] @ ''n de red para IP p'' @ [CHR 0xFA] @ ''blica'') @
     ln ''network:'' @
     ln ''  ethernets:'' @
     ln ''    eth0:'' @
     ln (''      addresses: ['' @ [sq] @ ip_address @ ''/32'' @ [sq] @ '']'') @
     ln (''      gateway4: '' @ gateway) @
     ln ''      nameservers:'' @
     ln (''        addresses: ['' @ dns_servers @ '']'') @
     ln ''      routes:'' @
     ln ''      - scope: link'' @
     ln (''        to: '' @ gateway @ ''/32'') @
     ln ''        via: 0.0.0.0'' @
     ln ''  version: 2''"

section \<open>Custom modules on disk\<close>

text \<open>
  The file system is a tree: a node is a file or a directory, and a directory is the list
  of its entries in the order in which \<open>os.listdir\<close> gives them. A path is the list of its
  components from the root, so \<open>os.path.join(p, name)\<close> with a name of one component is
  \<open>p @ [name]\<close>.
\<close>

datatype node = File | Dir "(string \<times> node) list"

fun walk :: "node \<Rightarrow> string list \<Rightarrow> node option" where
  "walk n [] = Some n"
| "walk File (x # xs) = None"
| "walk (Dir es) (x # xs) = (case map_of es x of None \<Rightarrow> None | Some m \<Rightarrow> walk m xs)"

definition path_exists :: "node \<Rightarrow> string list \<Rightarrow> bool" where
  "path_exists root p = (walk root p \<noteq> None)"

definition isdir :: "node \<Rightarrow> string list \<Rightarrow> bool" where
  "isdir root p = (case walk root p of Some (Dir es) \<Rightarrow> True | _ \<Rightarrow> False)"

text \<open>\<open>os.listdir\<close> raises on a path that is not a directory.\<close>

definition listdir :: "node \<Rightarrow> string list \<Rightarrow> exn + string list" where
  "listdir root p =
     (case walk root p of
        Some (Dir es) \<Rightarrow> Inr (map fst es)
      | Some File \<Rightarrow> Inl NotADirectoryError
      | None \<Rightarrow> Inl FileNotFoundError)"

text \<open>
  \<open>check_custom_modules\<close>, for the directory \<open>script_dir\<close> of the script. It returns the
  module names and the path of the \<open>modules\<close> directory.
\<close>

definition check_custom_modules ::
  "node \<Rightarrow> string list \<Rightarrow> event list \<times> (string list \<times> string list) outcome" where
  "check_custom_modules root script_dir =
    (let modules_dir = script_dir @ [''modules''] in
     if \<not> path_exists root modules_dir then
       ([msg_info (''No se encontr'' @ [CHR 0xF3] @ '' el directorio '' @ [sq] @ ''modules'' @ [sq])],
        Returns ([], modules_dir))
     else
       (case listdir root modules_dir of
          Inl e \<Rightarrow> ([], Raises e)
        | Inr items \<Rightarrow>
            ([], Returns
               (filter (\<lambda>item. isdir root (modules_dir @ [item]) \<and>
                                path_exists root ((modules_dir @ [item]) @ [''__manifest__.py'']))
                  items,
                modules_dir))))"

text \<open>
  The entries of a directory that are directories holding a file named \<open>name\<close>, and
  those that are directories holding an entry named \<open>name\<close>, file or directory.
\<close>

fun holds_file :: "string \<Rightarrow> node \<Rightarrow> bool" where
  "holds_file name (Dir es) = (map_of es name = Some File)"
| "holds_file name File = False"

fun holds_entry :: "string \<Rightarrow> node \<Rightarrow> bool" where
  "holds_entry name (Dir es) = (map_of es name \<noteq> None)"
| "holds_entry name File = False"

definition subdirs_with_file :: "string \<Rightarrow> (string \<times> node) list \<Rightarrow> string list" where
  "subdirs_with_file name es = map fst (filter (\<lambda>e. holds_file name (snd e)) es)"

definition subdirs_with_entry :: "string \<Rightarrow> (string \<times> node) list \<Rightarrow> string list" where
  "subdirs_with_entry name es = map fst (filter (\<lambda>e. holds_entry name (snd e)) es)"

text \<open>
  A disk on which the module \<open>sale_ext\<close> has its manifest, \<open>notes.txt\<close> is a file,
  \<open>drafts\<close> has no manifest, and in \<open>odd\<close> the name \<open>__manifest__.py\<close> is a directory.
\<close>

definition module_entries :: "(string \<times> node) list" where
  "module_entries =
     [(''sale_ext'', Dir [(''__manifest__.py'', File), (''__init__.py'', File)]),
      (''notes.txt'', File),
      (''drafts'', Dir [(''README'', File)]),
      (''odd'', Dir [(''__manifest__.py'', Dir [])])]"

definition disk :: node where
  "disk =
     Dir [(''opt'', Dir [(''deploy'', Dir
       [(''create-odoo-lxc.py'', File), (''modules'', Dir module_entries)])])]"

section \<open>Storage usage\<close>

text \<open>
  The numbers of a storage descriptor come from \<open>json.loads\<close>: an \<open>int\<close> of any size, a
  \<open>bool\<close> (which is an \<open>int\<close> for \<open>isinstance\<close> and for arithmetic) or a \<open>float\<close>.
  Python's floats are not modelled: their type is the parameter \<open>'f\<close> and what the
  script does with them is a record of operations. \<open>fsign\<close> is the sign of a float
  (\<open>None\<close> for a NaN), \<open>to_float\<close> converts an \<open>int\<close> and \<open>int_truediv\<close> divides two
  of them (\<open>None\<close> for \<open>OverflowError\<close>), \<open>fmt2\<close> is the format \<open>.2f\<close>.
\<close>

datatype sign = Neg | Zero | Pos

record 'f float_ops =
  fsign :: "'f \<Rightarrow> sign option"
  fmul :: "'f \<Rightarrow> 'f \<Rightarrow> 'f"
  fdiv :: "'f \<Rightarrow> 'f \<Rightarrow> 'f"
  to_float :: "int \<Rightarrow> 'f option"
  int_truediv :: "int \<Rightarrow> int \<Rightarrow> 'f option"
  fmt2 :: "'f \<Rightarrow> string"

datatype 'f num = NInt int | NFloat 'f

text \<open>\<open>isinstance(v, (int, float))\<close>, with the number that \<open>v\<close> is.\<close>

fun as_number :: "'f json \<Rightarrow> 'f num option" where
  "as_number (JInt n) = Some (NInt n)"
| "as_number (JBool b) = Some (NInt (if b then 1 else 0))"
| "as_number (JFloat f) = Some (NFloat f)"
| "as_number _ = None"

text \<open>\<open>x > 0\<close> and \<open>x == 0\<close> for a number.\<close>

fun gt_zero :: "'f float_ops \<Rightarrow> 'f num \<Rightarrow> bool" where
  "gt_zero ops (NInt n) = (n > 0)"
| "gt_zero ops (NFloat f) = (fsign ops f = Some Pos)"

fun is_zero :: "'f float_ops \<Rightarrow> 'f num \<Rightarrow> bool" where
  "is_zero ops (NInt n) = (n = 0)"
| "is_zero ops (NFloat f) = (fsign ops f = Some Zero)"

text \<open>
  \<open>x * y\<close> and \<open>x / y\<close>. With a float on one side the \<open>int\<close> on the other side is
  converted first. Division by an \<open>int\<close> or float that is zero raises
  \<open>ZeroDivisionError\<close>.
\<close>

definition float_div :: "'f float_ops \<Rightarrow> 'f \<Rightarrow> 'f \<Rightarrow> exn + 'f num" where
  "float_div ops f g =
     (if fsign ops g = Some Zero then Inl ZeroDivisionError else Inr (NFloat (fdiv ops f g)))"

fun py_mul :: "'f float_ops \<Rightarrow> 'f num \<Rightarrow> 'f num \<Rightarrow> exn + 'f num" where
  "py_mul ops (NInt x) (NInt y) = Inr (NInt (x * y))"
| "py_mul ops (NInt x) (NFloat g) =
     (case to_float ops x of None \<Rightarrow> Inl OverflowError | Some f \<Rightarrow> Inr (NFloat (fmul ops f g)))"
| "py_mul ops (NFloat f) (NInt y) =
     (case to_float ops y of None \<Rightarrow> Inl OverflowError | Some g \<Rightarrow> Inr (NFloat (fmul ops f g)))"
| "py_mul ops (NFloat f) (NFloat g) = Inr (NFloat (fmul ops f g))"

fun py_truediv :: "'f float_ops \<Rightarrow> 'f num \<Rightarrow> 'f num \<Rightarrow> exn + 'f num" where
  "py_truediv ops (NInt x) (NInt y) =
     (if y = 0 then Inl ZeroDivisionError
      else case int_truediv ops x y of None \<Rightarrow> Inl OverflowError | Some f \<Rightarrow> Inr (NFloat f))"
| "py_truediv ops (NInt x) (NFloat g) =
     (case to_float ops x of None \<Rightarrow> Inl OverflowError | Some f \<Rightarrow> float_div ops f g)"
| "py_truediv ops (NFloat f) (NInt y) =
     (case to_float ops y of None \<Rightarrow> Inl OverflowError | Some g \<Rightarrow> float_div ops f g)"
| "py_truediv ops (NFloat f) (NFloat g) = float_div ops f g"

text \<open>
  A computation of the display code gives the divisions it has carried out, each with its
  dividend and its divisor, and its result or the exception that ended it.
\<close>

type_synonym 'f division = "'f num \<times> 'f num"

definition divide :: "'f float_ops \<Rightarrow> 'f num \<Rightarrow> 'f num \<Rightarrow> 'f division list \<times> (exn + 'f num)" where
  "divide ops x y = ([(x, y)], py_truediv ops x y)"

text \<open>The text of a number in the format \<open>.2f\<close>; an \<open>int\<close> is converted first.\<close>

definition format_2f :: "'f float_ops \<Rightarrow> 'f num \<Rightarrow> exn + string" where
  "format_2f ops x =
     (case x of
        NFloat f \<Rightarrow> Inr (fmt2 ops f)
      | NInt n \<Rightarrow> (case to_float ops n of None \<Rightarrow> Inl OverflowError | Some f \<Rightarrow> Inr (fmt2 ops f)))"

text \<open>
  The expression for \<open>used_percent\<close> in \<open>show_storages\<close>:
  \<open>f"{used*100/total:.2f}%" if isinstance(used, (int, float)) and
  isinstance(total, (int, float)) and total > 0 else "N/A"\<close>.
\<close>

definition used_percent ::
  "'f float_ops \<Rightarrow> 'f json \<Rightarrow> 'f json \<Rightarrow> 'f division list \<times> string outcome" where
  "used_percent ops used total' =
     (case as_number used of
        None \<Rightarrow> ([], Returns ''N/A'')
      | Some u \<Rightarrow>
         (case as_number total' of
            None \<Rightarrow> ([], Returns ''N/A'')
          | Some t \<Rightarrow>
              if gt_zero ops t then
                (case py_mul ops u (NInt 100) of
                   Inl e \<Rightarrow> ([], Raises e)
                 | Inr x \<Rightarrow>
                    (case divide ops x t of
                       (ds, Inl e) \<Rightarrow> (ds, Raises e)
                     | (ds, Inr q) \<Rightarrow>
                        (case format_2f ops q of
                           Inl e \<Rightarrow> (ds, Raises e)
                         | Inr s \<Rightarrow> (ds, Returns (s @ ''%'')))))
              else ([], Returns ''N/A'')))"

text \<open>
  The lambda \<open>format_size\<close>:
  \<open>f"{size/1024/1024/1024:.2f} GB" if isinstance(size, (int, float)) else "N/A"\<close>.
\<close>

definition format_size :: "'f float_ops \<Rightarrow> 'f json \<Rightarrow> 'f division list \<times> string outcome" where
  "format_size ops size' =
     (case as_number size' of
        None \<Rightarrow> ([], Returns ''N/A'')
      | Some s \<Rightarrow>
         (case divide ops s (NInt 1024) of
            (d1, Inl e) \<Rightarrow> (d1, Raises e)
          | (d1, Inr a) \<Rightarrow>
             (case divide ops a (NInt 1024) of
                (d2, Inl e) \<Rightarrow> (d1 @ d2, Raises e)
              | (d2, Inr b) \<Rightarrow>
                 (case divide ops b (NInt 1024) of
                    (d3, Inl e) \<Rightarrow> (d1 @ d2 @ d3, Raises e)
                  | (d3, Inr c) \<Rightarrow>
                     (case format_2f ops c of
                        Inl e \<Rightarrow> (d1 @ d2 @ d3, Raises e)
                      | Inr t \<Rightarrow> (d1 @ d2 @ d3, Returns (t @ '' GB'')))))))"

text \<open>
  The descriptor of a storage is a JSON object, the list of its members.
  \<open>info.get(key, 'N/A')\<close> is the member or the text \<open>N/A\<close>.
\<close>

definition get_or_na :: "(string \<times> 'f json) list \<Rightarrow> string \<Rightarrow> 'f json" where
  "get_or_na info key = (case map_of info key of None \<Rightarrow> JStr ''N/A'' | Some v \<Rightarrow> v)"

text \<open>
  What \<open>show_storages\<close> computes for one descriptor, in the order of the source: the
  texts of the three sizes \<open>avail\<close>, \<open>total\<close>, \<open>used\<close>, then the percentage. The
  result is \<open>(avail_display, total_display, used_display, used_percent)\<close>.
\<close>

definition usage_displays ::
  "'f float_ops \<Rightarrow> 'f json \<Rightarrow> 'f json \<Rightarrow> 'f json \<Rightarrow>
   'f division list \<times> (string \<times> string \<times> string \<times> string) outcome" where
  "usage_displays ops avail total' used =
     (case format_size ops avail of
        (d1, Returns avail_display) \<Rightarrow>
          (case format_size ops total' of
             (d2, Returns total_display) \<Rightarrow>
               (case format_size ops used of
                  (d3, Returns used_display) \<Rightarrow>
                    (case used_percent ops used total' of
                       (d4, Returns percent) \<Rightarrow>
                         (d1 @ d2 @ d3 @ d4,
                          Returns (avail_display, total_display, used_display, percent))
                     | (d4, Raises e) \<Rightarrow> (d1 @ d2 @ d3 @ d4, Raises e)
                     | (d4, Exits n) \<Rightarrow> (d1 @ d2 @ d3 @ d4, Exits n))
                | (d3, Raises e) \<Rightarrow> (d1 @ d2 @ d3, Raises e)
                | (d3, Exits n) \<Rightarrow> (d1 @ d2 @ d3, Exits n))
           | (d2, Raises e) \<Rightarrow> (d1 @ d2, Raises e)
           | (d2, Exits n) \<Rightarrow> (d1 @ d2, Exits n))
      | (d1, Raises e) \<Rightarrow> (d1, Raises e)
      | (d1, Exits n) \<Rightarrow> (d1, Exits n))"

definition storage_usage ::
  "'f float_ops \<Rightarrow> (string \<times> 'f json) list \<Rightarrow>
   'f division list \<times> (string \<times> string \<times> string \<times> string) outcome" where
  "storage_usage ops info =
     usage_displays ops (get_or_na info ''avail'') (get_or_na info ''total'')
       (get_or_na info ''used'')"

text \<open>
  The descriptor that \<open>show_storages\<close> shows for a name:
  \<open>next((item for item in storage_data if item['storage'] == name), {})\<close>.
\<close>

fun storage_info :: "(string \<times> 'f json) list list \<Rightarrow> string \<Rightarrow> exn + (string \<times> 'f json) list" where
  "storage_info [] name = Inr []"
| "storage_info (item # items) name =
     (case map_of item ''storage'' of
        None \<Rightarrow> Inl KeyError
      | Some v \<Rightarrow> if v = JStr name then Inr item else storage_info items name)"

text \<open>
  The test \<open>x in v\<close> for a text \<open>x\<close> and a value \<open>v\<close> read by \<open>json.loads\<close>: in a
  text it looks for a part that is \<open>x\<close>, in a list for an element equal to \<open>x\<close>, in an
  object for the key \<open>x\<close>; for \<open>None\<close>, a \<open>bool\<close> and a number it raises
  \<open>TypeError\<close>.
\<close>

fun py_in :: "string \<Rightarrow> 'f json \<Rightarrow> exn + bool" where
  "py_in x (JStr s) = Inr (sublist x s)"
| "py_in x (JArr vs) = Inr (list_ex (\<lambda>v. v = JStr x) vs)"
| "py_in x (JObj kvs) = Inr (map_of kvs x \<noteq> None)"
| "py_in x v = Inl TypeError"

text \<open>
  The texts \<open>rootdir_support\<close> and \<open>vztmpl_support\<close> of a descriptor, from its member
  \<open>content\<close>, which is \<open>info.get('content', '')\<close>. Each is \<open>S\<close> followed by the letter I
  with an acute accent, or \<open>NO\<close>.
\<close>

definition support_text :: "bool \<Rightarrow> string" where
  "support_text b = (if b then ''S'' @ [CHR 0xCD] else ''NO'')"

definition content_support :: "(string \<times> 'f json) list \<Rightarrow> exn + string \<times> string" where
  "content_support info =
     (let content = (case map_of info ''content'' of None \<Rightarrow> JStr [] | Some v \<Rightarrow> v)
      in case py_in ''rootdir'' content of
           Inl e \<Rightarrow> Inl e
         | Inr rootdir \<Rightarrow>
            (case py_in ''vztmpl'' content of
               Inl e \<Rightarrow> Inl e
             | Inr vztmpl \<Rightarrow> Inr (support_text rootdir, support_text vztmpl)))"

text \<open>
  The loop of \<open>show_storages\<close> over the names: the divisions carried out and, for each
  name, the texts that are printed for it, the four of the sizes and the two of the
  content. In the source the two tests of the content come before the sizes are
  formatted, and everything is printed after the percentage.
\<close>

fun show_storages ::
  "'f float_ops \<Rightarrow> (string \<times> 'f json) list list \<Rightarrow> string list \<Rightarrow>
   'f division list \<times>
   ((string \<times> string \<times> string \<times> string) \<times> string \<times> string) list outcome" where
  "show_storages ops storage_data [] = ([], Returns [])"
| "show_storages ops storage_data (name # storages) =
     (case storage_info storage_data name of
        Inl e \<Rightarrow> ([], Raises e)
      | Inr info \<Rightarrow>
         (case content_support info of
            Inl e \<Rightarrow> ([], Raises e)
          | Inr support \<Rightarrow>
             (case storage_usage ops info of
                (d, Returns shown) \<Rightarrow>
                  (case show_storages ops storage_data storages of
                     (ds, Returns rest) \<Rightarrow> (d @ ds, Returns ((shown, support) # rest))
                   | (ds, Raises e) \<Rightarrow> (d @ ds, Raises e)
                   | (ds, Exits n) \<Rightarrow> (d @ ds, Exits n))
              | (d, Raises e) \<Rightarrow> (d, Raises e)
              | (d, Exits n) \<Rightarrow> (d, Exits n))))"

text \<open>
  The operations are those of a float arithmetic when converting an \<open>int\<close> gives the
  float zero only for the \<open>int\<close> zero.
\<close>

definition float_ops_ok :: "'f float_ops \<Rightarrow> bool" where
  "float_ops_ok ops = (\<forall>n f. to_float ops n = Some f \<longrightarrow> (fsign ops f = Some Zero) = (n = 0))"

text \<open>
  A stand-in for the floats, to run the model: a float is a whole number of hundredths,
  and the operations round down.
\<close>

fun decimal_text :: "nat \<Rightarrow> string" where
  "decimal_text n =
     (if n < 10 then [''0123456789'' ! n]
      else decimal_text (n div 10) @ [''0123456789'' ! (n mod 10)])"

definition centi_ops :: "int float_ops" where
  "centi_ops =
     \<lparr>fsign = (\<lambda>f. Some (if f < 0 then Neg else if f = 0 then Zero else Pos)),
      fmul = (\<lambda>f g. f * g div 100),
      fdiv = (\<lambda>f g. f * 100 div g),
      to_float = (\<lambda>n. Some (100 * n)),
      int_truediv = (\<lambda>x y. Some (100 * x div y)),
      fmt2 = (\<lambda>f. (if f < 0 then ''-'' else '''') @ decimal_text (nat \<bar>f\<bar> div 100) @ ''.'' @
                   decimal_text (nat \<bar>f\<bar> mod 100 div 10) @ decimal_text (nat \<bar>f\<bar> mod 10))\<rparr>"

section \<open>The install script\<close>

text \<open>
  \<open>create_odoo_install_script\<close> builds the text of the script from three f-strings.
  Each is given here as the list of its lines, with the arguments where the f-string has
  its fields; \<open>unlines\<close> ends every line with a line feed. The first part runs from
  \<open>#!/bin/bash\<close> to the empty line after the installation of wkhtmltopdf.
\<close>

definition unlines :: "string list \<Rightarrow> string" where
  "unlines ls = concat (map ln ls)"

definition head_lines :: "string \<Rightarrow> string \<Rightarrow> string \<Rightarrow> string list" where
  \<open>head_lines odoo_version db_pass odoo_user =
     [''#!/bin/bash'',
      ''# Script de instalaci'' @ [CHR 0xF3] @ ''n de Odoo '' @ odoo_version @ '' - C3i Servicios Inform'' @ [CHR 0xE1] @ ''ticos'',
      ''info() { echo "[INFO] $1"; }'',
      ''success() { echo "[SUCCESS] $1"; }'',
      ''warning() { echo "[WARNING] $1"; }'',
      ''error() { echo "[ERROR] $1"; }'',
      ''progress() { echo "[PROGRESS] $1"; }'',
      '''',
      ''# Actualizar sistema'',
      ''info "Actualizando sistema..."'',
      ''apt-get update && DEBIAN_FRONTEND=noninteractive apt-get upgrade -y'',
      ''success "Sistema actualizado"'',
      '''',
      ''# Instalar requisitos'',
      ''info "Instalando dependencias..."'',
      ''progress "Instalando paquetes del sistema (1/5)"'',
      ''apt-get install -y openssh-server fail2ban python3-pip python3-dev libxml2-dev libxslt1-dev zlib1g-dev libsasl2-dev'',
      ''progress "Instalando bibliotecas de desarrollo (2/5)"'',
      ''apt-get install -y libldap2-dev build-essential libssl-dev libffi-dev default-libmysqlclient-dev libjpeg-dev libpq-dev'',
      ''progress "Instalando bibliotecas de procesamiento de im'' @ [CHR 0xE1] @ ''genes (3/5)"'',
      ''apt-get install -y libjpeg8-dev liblcms2-dev libblas-dev libatlas-base-dev'',
      ''progress "Instalando Node.js y npm (4/5)"'',
      ''apt-get install -y npm git postgresql python3-venv'',
      ''progress "Configurando fail2ban y Node.js (5/5)"'',
      ''systemctl enable fail2ban'',
      ''ln -sf /usr/bin/nodejs /usr/bin/node'',
      ''npm install -g less less-plugin-clean-css'',
      ''apt-get install -y node-less'',
      ''success "Dependencias instaladas"'',
      '''',
      ''# Configurar PostgreSQL'',
      ''info "Configurando PostgreSQL..."'',
      ''su - postgres -c "createuser --createdb --username postgres --no-createrole --superuser --pwprompt '' @ odoo_user @ '' << EOF'',
      db_pass,
      db_pass,
      ''EOF"'',
      ''success "PostgreSQL configurado"'',
      '''',
      ''# Crear usuario de Odoo'',
      ''info "Creando usuario del sistema para Odoo..."'',
      ''adduser --system --home=/opt/odoo18 --group '' @ odoo_user,
      ''success "Usuario del sistema creado"'',
      '''',
      ''# Clonar Odoo'',
      ''info "Clonando repositorio de Odoo..."'',
      ''progress "Descargando c'' @ [CHR 0xF3] @ ''digo fuente de Odoo (esto puede tardar varios minutos)..."'',
      ''su - '' @ odoo_user @ '' -s /bin/bash -c "git clone https://www.github.com/odoo/odoo --depth 1 --branch '' @ odoo_version @ '' --single-branch ."'',
      ''success "Repositorio de Odoo clonado"'',
      '''',
      ''# Instalar dependencias de Python'',
      ''info "Instalando dependencias de Python..."'',
      ''python3 -m venv /opt/odoo18/venv'',
      ''cd /opt/odoo18/'',
      ''progress "Instalando requisitos de Python en entorno virtual (esto puede tardar varios minutos)..."'',
      ''/opt/odoo18/venv/bin/pip install wheel'',
      ''/opt/odoo18/venv/bin/pip install -r requirements.txt'',
      ''success "Dependencias de Python instaladas"'',
      '''',
      ''# Instalar wkhtmltopdf'',
      ''info "Instalando wkhtmltopdf..."'',
      ''apt-get install -y xfonts-75dpi xfonts-base'',
      ''cd /tmp'',
      ''progress "Descargando wkhtmltopdf..."'',
      ''wget -q https://github.com/wkhtmltopdf/packaging/releases/download/0.12.6.1-2/wkhtmltox_0.12.6.1-2.jammy_amd64.deb'',
      ''progress "Instalando paquete wkhtmltopdf..."'',
      ''dpkg -i wkhtmltox_0.12.6.1-2.jammy_amd64.deb || apt-get install -f -y'',
      ''success "wkhtmltopdf instalado"'',
      '''']\<close>

text \<open>
  The second part, the block for the custom modules. It starts with an empty line: the
  f-string opens with a line feed.
\<close>

definition custom_lines :: "string \<Rightarrow> string \<Rightarrow> string list" where
  \<open>custom_lines odoo_user custom_modules_str =
     ['''',
      ''# Instalar m'' @ [CHR 0xF3] @ ''dulos personalizados'',
      ''info "Instalando m'' @ [CHR 0xF3] @ ''dulos personalizados..."'',
      ''mkdir -p /opt/odoo18/custom_addons'',
      ''chown '' @ odoo_user @ '': /opt/odoo18/custom_addons'',
      '''',
      ''# Copiar m'' @ [CHR 0xF3] @ ''dulos personalizados a Odoo'',
      ''for module in '' @ custom_modules_str @ ''; do'',
      ''    progress "Instalando m'' @ [CHR 0xF3] @ ''dulo: $module"'',
      ''    cp -r /tmp/custom_modules/$module /opt/odoo18/custom_addons/'',
      ''done'',
      '''',
      ''chown -R '' @ odoo_user @ '': /opt/odoo18/custom_addons/'',
      ''success "M'' @ [CHR 0xF3] @ ''dulos personalizados instalados"'']\<close>

text \<open>The third part: two empty lines, the configuration, the service unit, the start.\<close>

definition tail_lines :: "string \<Rightarrow> string \<Rightarrow> string \<Rightarrow> string \<Rightarrow> string list" where
  \<open>tail_lines odoo_version db_pass odoo_user addons_path =
     ['''',
      '''',
      ''# Configurar Odoo'',
      ''info "Configurando Odoo..."'',
      ''mkdir -p /var/log/odoo'',
      ''progress "Creando archivo de configuraci'' @ [CHR 0xF3] @ ''n..."'',
      ''cat > /etc/odoo18.conf << EOL'',
      ''[options]'',
      ''; Esta es la contrase'' @ [CHR 0xF1] @ ''a que permite operaciones en la base de datos:'',
      ''; admin_passwd = admin'',
      ''db_host = localhost'',
      ''db_port = 5432'',
      ''db_user = '' @ odoo_user,
      ''db_password = '' @ db_pass,
      ''addons_path = '' @ addons_path,
      ''default_productivity_apps = True'',
      ''logfile = /var/log/odoo/odoo18.log'',
      ''EOL'',
      '''',
      ''chown '' @ odoo_user @ '': /etc/odoo18.conf'',
      ''chmod 640 /etc/odoo18.conf'',
      ''chown '' @ odoo_user @ '':root /var/log/odoo'',
      ''progress "Creando servicio systemd..."'',
      '''',
      ''# Configurar systemd'',
      ''cat > /etc/systemd/system/odoo18.service << EOL'',
      ''[Unit]'',
      ''Description=Odoo '' @ odoo_version,
      ''After=network.target postgresql.service'',
      '''',
      ''[Service]'',
      ''Type=simple'',
      ''User='' @ odoo_user,
      ''ExecStart=/opt/odoo18/venv/bin/python3 /opt/odoo18/odoo-bin -c /etc/odoo18.conf'',
      '''',
      ''[Install]'',
      ''WantedBy=default.target'',
      ''EOL'',
      '''',
      ''chmod 755 /etc/systemd/system/odoo18.service'',
      ''progress "Recargando systemd e iniciando servicio de Odoo..."'',
      ''systemctl daemon-reload'',
      ''systemctl start odoo18.service'',
      ''systemctl enable odoo18.service'',
      '''',
      ''success "Instalaci'' @ [CHR 0xF3] @ ''n de Odoo '' @ odoo_version @ '' completada"'']\<close>

text \<open>\<open>sep.join(xs)\<close>.\<close>

fun join :: "string \<Rightarrow> string list \<Rightarrow> string" where
  "join sep [] = []"
| "join sep [x] = x"
| "join sep (x # y # ys) = x @ sep @ join sep (y # ys)"

text \<open>The local variables \<open>custom_modules_str\<close> and \<open>addons_path\<close>.\<close>

definition custom_modules_str :: "string list \<Rightarrow> string" where
  "custom_modules_str custom_modules = join '', '' (map (\<lambda>m. [dq] @ m @ [dq]) custom_modules)"

definition addons_path :: "string list \<Rightarrow> string" where
  "addons_path custom_modules =
     (if length custom_modules > 0 then ''/opt/odoo18/addons,/opt/odoo18/custom_addons''
      else ''/opt/odoo18/addons'')"

definition script_content :: "string \<Rightarrow> string \<Rightarrow> string \<Rightarrow> string list \<Rightarrow> string" where
  "script_content odoo_version db_pass odoo_user custom_modules =
     unlines (head_lines odoo_version db_pass odoo_user) @
     (if length custom_modules > 0
      then unlines (custom_lines odoo_user (custom_modules_str custom_modules)) else []) @
     unlines (tail_lines odoo_version db_pass odoo_user (addons_path custom_modules))"

text \<open>The function writes one file; the result is its name and its text.\<close>

definition create_odoo_install_script ::
  "string \<Rightarrow> string \<Rightarrow> string \<Rightarrow> string list \<Rightarrow> string \<times> string" where
  "create_odoo_install_script odoo_version db_pass odoo_user custom_modules =
     (''/tmp/odoo_install.sh'', script_content odoo_version db_pass odoo_user custom_modules)"



text \<open>\<open>occur_in_order ms s\<close>: the texts \<open>ms\<close> occur in \<open>s\<close> one after the other, without overlap.\<close>

fun occur_in_order :: "string list \<Rightarrow> string \<Rightarrow> bool" where
  "occur_in_order [] s = True"
| "occur_in_order (m # ms) s = (\<exists>a b. s = a @ m @ b \<and> occur_in_order ms b)"

text \<open>
  The sections of the script, each by the comment line that opens it and by the line of
  its main command: update of the system, installation of the dependencies, creation of
  the database role, checkout of the sources, the virtual environment, wkhtmltopdf, then
  the copy of the custom modules if there are any, the configuration file, the service
  unit, and the start of the service.
\<close>

definition head_sections :: "string \<Rightarrow> string \<Rightarrow> string list" where
  \<open>head_sections odoo_version odoo_user =
     [''# Actualizar sistema'',
      ''apt-get update && DEBIAN_FRONTEND=noninteractive apt-get upgrade -y'',
      ''# Instalar requisitos'',
      ''apt-get install -y openssh-server fail2ban python3-pip python3-dev libxml2-dev libxslt1-dev zlib1g-dev libsasl2-dev'',
      ''# Configurar PostgreSQL'',
      ''su - postgres -c "createuser --createdb --username postgres --no-createrole --superuser --pwprompt '' @ odoo_user @ '' << EOF'',
      ''# Clonar Odoo'',
      ''su - '' @ odoo_user @ '' -s /bin/bash -c "git clone https://www.github.com/odoo/odoo --depth 1 --branch '' @ odoo_version @ '' --single-branch ."'',
      ''# Instalar dependencias de Python'',
      ''python3 -m venv /opt/odoo18/venv'',
      ''# Instalar wkhtmltopdf'',
      ''dpkg -i wkhtmltox_0.12.6.1-2.jammy_amd64.deb || apt-get install -f -y'']\<close>

definition custom_sections :: "string list \<Rightarrow> string list" where
  \<open>custom_sections custom_modules =
     [''# Instalar m'' @ [CHR 0xF3] @ ''dulos personalizados'',
      ''mkdir -p /opt/odoo18/custom_addons'',
      ''for module in '' @ custom_modules_str custom_modules @ ''; do'',
      ''    cp -r /tmp/custom_modules/$module /opt/odoo18/custom_addons/'']\<close>

definition tail_sections :: "string list" where
  \<open>tail_sections =
     [''# Configurar Odoo'',
      ''cat > /etc/odoo18.conf << EOL'',
      ''# Configurar systemd'',
      ''cat > /etc/systemd/system/odoo18.service << EOL'',
      ''systemctl start odoo18.service'']\<close>

definition sections :: "string \<Rightarrow> string \<Rightarrow> string list \<Rightarrow> string list" where
  "sections odoo_version odoo_user custom_modules =
     head_sections odoo_version odoo_user @
     (if custom_modules \<noteq> [] then custom_sections custom_modules else []) @
     tail_sections"

section \<open>Properties of stripping\<close>

lemma lstrip_split: "\<exists>l. s = l @ lstrip s \<and> (\<forall>c\<in>set l. is_space c)"
proof -
  have "s = takeWhile is_space s @ lstrip s"
    by (simp add: lstrip_def)
  moreover have "\<forall>c\<in>set (takeWhile is_space s). is_space c"
    by (auto dest: set_takeWhileD)
  ultimately show ?thesis by blast
qed

lemma rstrip_split: "\<exists>r. s = rstrip s @ r \<and> (\<forall>c\<in>set r. is_space c)"
proof -
  have "rev s = takeWhile is_space (rev s) @ dropWhile is_space (rev s)"
    by simp
  then have "s = rev (dropWhile is_space (rev s)) @ rev (takeWhile is_space (rev s))"
    by (metis rev_append rev_rev_ident)
  moreover have "\<forall>c\<in>set (rev (takeWhile is_space (rev s))). is_space c"
    by (auto dest: set_takeWhileD)
  ultimately show ?thesis
    unfolding rstrip_def by blast
qed

lemma strip_split:
  "\<exists>l r. s = l @ strip s @ r \<and> (\<forall>c\<in>set l. is_space c) \<and> (\<forall>c\<in>set r. is_space c)"
proof -
  obtain l where l: "s = l @ lstrip s" "\<forall>c\<in>set l. is_space c"
    using lstrip_split by blast
  obtain r where r: "lstrip s = rstrip (lstrip s) @ r" "\<forall>c\<in>set r. is_space c"
    using rstrip_split by blast
  have "s = l @ strip s @ r"
    using l(1) r(1) by (simp add: strip_def)
  with l(2) r(2) show ?thesis by blast
qed

lemma lstrip_hd: "lstrip s \<noteq> [] \<Longrightarrow> \<not> is_space (hd (lstrip s))"
  unfolding lstrip_def by (simp add: hd_dropWhile)

lemma rstrip_last: "rstrip s \<noteq> [] \<Longrightarrow> \<not> is_space (last (rstrip s))"
  unfolding rstrip_def by (simp add: last_rev hd_dropWhile)

lemma rstrip_hd: "rstrip s \<noteq> [] \<Longrightarrow> hd (rstrip s) = hd s"
proof -
  assume ne: "rstrip s \<noteq> []"
  obtain r where r: "s = rstrip s @ r"
    using rstrip_split by blast
  have "hd (rstrip s @ r) = hd (rstrip s)"
    using ne by simp
  with r show ?thesis by simp
qed

lemma strip_ends:
  assumes "strip s \<noteq> []"
  shows "\<not> is_space (hd (strip s))" and "\<not> is_space (last (strip s))"
proof -
  have ne: "lstrip s \<noteq> []"
    using assms by (auto simp: strip_def rstrip_def)
  have "hd (strip s) = hd (lstrip s)"
    using assms by (simp add: strip_def rstrip_hd)
  then show "\<not> is_space (hd (strip s))"
    using lstrip_hd [OF ne] by simp
  show "\<not> is_space (last (strip s))"
    using assms by (simp add: strip_def rstrip_last)
qed

section \<open>The contract of run_command\<close>

text \<open>
  C1, as the code has it. For a command for which \<open>subprocess.run\<close> completes:
  with \<open>exit_on_error\<close> true, \<open>run_command\<close> returns the standard output of a
  command that succeeds, stripped of the whitespace around it (the output is the result
  between two runs of whitespace, and the result neither starts nor ends with
  whitespace); for a command that fails it prints one error line and ends the process
  with status 1. With \<open>exit_on_error\<close> false a failing command makes it return
  \<open>None\<close>, nothing is printed and the process goes on. For a command for which
  \<open>subprocess.run\<close> raises another exception than \<open>CalledProcessError\<close>, the
  exception leaves \<open>run_command\<close> whatever \<open>exit_on_error\<close> is: nothing is returned,
  nothing is printed and \<open>sys.exit\<close> is not called.
\<close>

theorem run_command_contract:
  "(sh c = Inr r \<and> returncode r = 0 \<longrightarrow>
      snd (run_command sh c True so) = Returns (Some (strip (stdout r))) \<and>
      snd (run_command sh c False so) = Returns (Some (strip (stdout r))) \<and>
      (\<exists>l t. stdout r = l @ strip (stdout r) @ t \<and>
             (\<forall>x\<in>set l. is_space x) \<and> (\<forall>x\<in>set t. is_space x)) \<and>
      (strip (stdout r) \<noteq> [] \<longrightarrow>
         \<not> is_space (hd (strip (stdout r))) \<and>
         \<not> is_space (last (strip (stdout r)))))
   \<and> (sh c = Inr r \<and> returncode r \<noteq> 0 \<longrightarrow>
      run_command sh c True so =
        ([Run c, error (''Error: '' @ c @ [nl] @ ''Salida: '' @ stderr r)], Exits 1) \<and>
      run_command sh c False so = ([Run c], Returns None))
   \<and> (sh c = Inl e \<longrightarrow>
      run_command sh c True so = ([Run c], Raises e) \<and>
      run_command sh c False so = ([Run c], Raises e))"
proof (intro conjI impI)
  assume "sh c = Inr r \<and> returncode r = 0"
  then show "snd (run_command sh c True so) = Returns (Some (strip (stdout r)))"
    and "snd (run_command sh c False so) = Returns (Some (strip (stdout r)))"
    by (simp_all add: run_command_def)
next
  show "\<exists>l t. stdout r = l @ strip (stdout r) @ t \<and>
          (\<forall>x\<in>set l. is_space x) \<and> (\<forall>x\<in>set t. is_space x)"
    by (rule strip_split)
next
  assume "strip (stdout r) \<noteq> []"
  then show "\<not> is_space (hd (strip (stdout r)))"
    and "\<not> is_space (last (strip (stdout r)))"
    by (rule strip_ends)+
next
  assume "sh c = Inr r \<and> returncode r \<noteq> 0"
  then show "run_command sh c True so =
      ([Run c, error (''Error: '' @ c @ [nl] @ ''Salida: '' @ stderr r)], Exits 1)"
    and "run_command sh c False so = ([Run c], Returns None)"
    by (simp_all add: run_command_def error_exit_def)
next
  assume "sh c = Inl e"
  then show "run_command sh c True so = ([Run c], Raises e)"
    and "run_command sh c False so = ([Run c], Raises e)"
    by (simp_all add: run_command_def)
qed

theorem run_command_contract_witness:
  "snd (run_command (\<lambda>c. Inr \<lparr>returncode = 0, stdout = '' pve1'' @ [nl], stderr = ''''\<rparr>)
          ''hostname'' True False) = Returns (Some ''pve1'')
   \<and> run_command (\<lambda>c. Inr \<lparr>returncode = 2, stdout = '''', stderr = ''no''\<rparr>) ''false'' True False
       = ([Run ''false'', error (''Error: false'' @ [nl] @ ''Salida: no'')], Exits 1)
   \<and> run_command (\<lambda>c. Inr \<lparr>returncode = 2, stdout = '''', stderr = ''no''\<rparr>) ''false'' False False
       = ([Run ''false''], Returns None)
   \<and> run_command (\<lambda>c. Inl OSError) ''hostname'' False False
       = ([Run ''hostname''], Raises OSError)"
  using run_command_contract
      [of "\<lambda>c. Inr \<lparr>returncode = 0, stdout = '' pve1'' @ [nl], stderr = ''''\<rparr>" "''hostname''"
          "\<lparr>returncode = 0, stdout = '' pve1'' @ [nl], stderr = ''''\<rparr>" False]
    run_command_contract
      [of "\<lambda>c. Inr \<lparr>returncode = 2, stdout = '''', stderr = ''no''\<rparr>" "''false''"
          "\<lparr>returncode = 2, stdout = '''', stderr = ''no''\<rparr>" False]
    run_command_contract [of "\<lambda>c. Inl OSError" "''hostname''" _ False OSError]
  by (simp add: strip_def lstrip_def rstrip_def is_space_def nl_def)

text \<open>
  The command \<open>printf 'ab\377'\<close> succeeds, with return code 0; its output is not text in
  UTF-8, so \<open>subprocess.run\<close> raises \<open>UnicodeDecodeError\<close>, and \<open>run_command\<close> with
  \<open>exit_on_error\<close> true neither returns the output nor prints an error line and ends
  the process: the exception leaves it.
\<close>

theorem run_command_counterexample:
  "run_command sh_undecodable printf_cmd True False = ([Run printf_cmd], Raises UnicodeDecodeError)"
  by (simp add: run_command_def sh_undecodable_def)

section \<open>Properties of ask\<close>

lemma ask_result:
  assumes "ask rematch inp prompt dflt validation error_msg k evs = Some y"
  shows "\<exists>j\<ge>k. fst y = user_input_of (inp j) dflt \<and> fst (snd y) = Suc j \<and>
           (\<forall>p. validation = Some p \<longrightarrow> rematch p (fst y))"
proof (rule ask.raw_induct [where P = "\<lambda>rematch inp prompt dflt validation error_msg k evs y.
    \<exists>j\<ge>k. fst y = user_input_of (inp j) dflt \<and> fst (snd y) = Suc j \<and>
           (\<forall>p. validation = Some p \<longrightarrow> rematch p (fst y))", OF _ assms])
  fix f :: "('a \<Rightarrow> string \<Rightarrow> bool) \<Rightarrow> (nat \<Rightarrow> string) \<Rightarrow> string \<Rightarrow> string \<Rightarrow> 'a option \<Rightarrow> string \<Rightarrow>
     nat \<Rightarrow> event list \<Rightarrow> (string \<times> nat \<times> event list) option"
    and rematch inp prompt dflt validation error_msg k evs y
  assume IH: "\<And>rematch inp prompt dflt validation error_msg k evs y.
      f rematch inp prompt dflt validation error_msg k evs = Some y \<Longrightarrow>
      \<exists>j\<ge>k. fst y = user_input_of (inp j) dflt \<and> fst (snd y) = Suc j \<and>
           (\<forall>p. validation = Some p \<longrightarrow> rematch p (fst y))"
    and step: "(let user_input = user_input_of (inp k) dflt;
          evs1 = evs @ [Input (ask_prompt prompt dflt)]
      in if case validation of None \<Rightarrow> True | Some p \<Rightarrow> rematch p user_input
         then Some (user_input, Suc k, evs1)
         else f rematch inp prompt dflt validation error_msg (Suc k)
               (evs1 @ [warning error_msg])) = Some y"
  show "\<exists>j\<ge>k. fst y = user_input_of (inp j) dflt \<and> fst (snd y) = Suc j \<and>
           (\<forall>p. validation = Some p \<longrightarrow> rematch p (fst y))"
  proof (cases "case validation of None \<Rightarrow> True | Some p \<Rightarrow> rematch p (user_input_of (inp k) dflt)")
    case True
    with step have "y = (user_input_of (inp k) dflt, Suc k, evs @ [Input (ask_prompt prompt dflt)])"
      by (simp add: Let_def)
    with True show ?thesis by (auto split: option.splits)
  next
    case False
    with step have "f rematch inp prompt dflt validation error_msg (Suc k)
        ((evs @ [Input (ask_prompt prompt dflt)]) @ [warning error_msg]) = Some y"
      by (simp add: Let_def)
    from IH [OF this] obtain j where "j \<ge> Suc k" "fst y = user_input_of (inp j) dflt"
      "fst (snd y) = Suc j" "\<forall>p. validation = Some p \<longrightarrow> rematch p (fst y)"
      by blast
    then show ?thesis
      using Suc_leD by blast
  qed
qed

lemma ask_blank_forever:
  assumes "ask rematch inp prompt dflt (Some p) error_msg k evs = Some y"
    and "\<not> rematch p dflt"
  shows "\<exists>j\<ge>k. strip (inp j) \<noteq> []"
proof -
  have "Some p = Some p \<longrightarrow> \<not> rematch p dflt \<longrightarrow> (\<exists>j\<ge>k. strip (inp j) \<noteq> [])"
  proof (rule ask.raw_induct [where P = "\<lambda>rematch inp prompt dflt validation error_msg k evs y.
      validation = Some p \<longrightarrow> \<not> rematch p dflt \<longrightarrow> (\<exists>j\<ge>k. strip (inp j) \<noteq> [])", OF _ assms(1)])
    fix f :: "('a \<Rightarrow> string \<Rightarrow> bool) \<Rightarrow> (nat \<Rightarrow> string) \<Rightarrow> string \<Rightarrow> string \<Rightarrow> 'a option \<Rightarrow> string \<Rightarrow>
       nat \<Rightarrow> event list \<Rightarrow> (string \<times> nat \<times> event list) option"
      and rematch inp prompt dflt validation error_msg k evs y
    assume IH: "\<And>rematch inp prompt dflt validation error_msg k evs y.
        f rematch inp prompt dflt validation error_msg k evs = Some y \<Longrightarrow>
        validation = Some p \<longrightarrow> \<not> rematch p dflt \<longrightarrow> (\<exists>j\<ge>k. strip (inp j) \<noteq> [])"
      and step: "(let user_input = user_input_of (inp k) dflt;
            evs1 = evs @ [Input (ask_prompt prompt dflt)]
        in if case validation of None \<Rightarrow> True | Some p \<Rightarrow> rematch p user_input
           then Some (user_input, Suc k, evs1)
           else f rematch inp prompt dflt validation error_msg (Suc k)
                 (evs1 @ [warning error_msg])) = Some y"
    show "validation = Some p \<longrightarrow> \<not> rematch p dflt \<longrightarrow> (\<exists>j\<ge>k. strip (inp j) \<noteq> [])"
    proof (intro impI)
      assume v: "validation = Some p" and nm: "\<not> rematch p dflt"
      show "\<exists>j\<ge>k. strip (inp j) \<noteq> []"
      proof (cases "strip (inp k) = []")
        case False
        then show ?thesis by blast
      next
        case True
        then have "user_input_of (inp k) dflt = dflt"
          by (simp add: user_input_of_def)
        with step v nm have "f rematch inp prompt dflt validation error_msg (Suc k)
            ((evs @ [Input (ask_prompt prompt dflt)]) @ [warning error_msg]) = Some y"
          by (simp add: Let_def)
        from IH [OF this] v nm obtain j where "j \<ge> Suc k" "strip (inp j) \<noteq> []"
          by blast
        then show ?thesis
          using Suc_leD by blast
      qed
    qed
  qed
  with assms(2) show ?thesis by simp
qed

section \<open>The container id\<close>

lemma vm_id_match_iff:
  "re_match vm_id_pattern s \<longleftrightarrow>
     (\<exists>a b c r. s = a # b # c # r \<and> in_range a (CHR ''1'', CHR ''9'') \<and>
        in_range b (CHR ''0'', CHR ''9'') \<and> in_range c (CHR ''0'', CHR ''9'') \<and>
        (r = [] \<or> r = [nl]))"
proof (cases s)
  case Nil
  then show ?thesis by (simp add: re_match_def vm_id_pattern_def)
next
  case s1: (Cons a s')
  show ?thesis
  proof (cases s')
    case Nil
    with s1 show ?thesis by (simp add: re_match_def vm_id_pattern_def)
  next
    case s2: (Cons b s'')
    show ?thesis
    proof (cases s'')
      case Nil
      with s1 s2 show ?thesis by (simp add: re_match_def vm_id_pattern_def)
    next
      case (Cons c r)
      with s1 s2 show ?thesis
        by (auto simp add: re_match_def vm_id_pattern_def)
    qed
  qed
qed

lemma numeral_100_999_iff:
  "numeral_100_999 s \<longleftrightarrow>
     (\<exists>a b c. s = [a, b, c] \<and> in_range a (CHR ''1'', CHR ''9'') \<and>
        in_range b (CHR ''0'', CHR ''9'') \<and> in_range c (CHR ''0'', CHR ''9''))"
proof -
  have len3: "length s = 3 \<longleftrightarrow> (\<exists>a b c. s = [a, b, c])"
    by (auto simp: length_Suc_conv numeral_3_eq_3)
  show ?thesis
    unfolding numeral_100_999_def len3
    by (auto simp: is_digit_def decimal_def in_range_def)
qed

lemma user_input_no_nl: "last (user_input_of line ''100'') \<noteq> nl"
proof (cases "strip line = []")
  case True
  then show ?thesis by (simp add: user_input_of_def nl_def)
next
  case False
  then have "\<not> is_space (last (strip line))"
    by (rule strip_ends)
  moreover have "is_space nl"
    by (simp add: is_space_def nl_def)
  ultimately show ?thesis
    using False by (auto simp: user_input_of_def)
qed

lemma vm_id_user_input:
  "re_match vm_id_pattern (user_input_of line ''100'') \<longleftrightarrow>
     numeral_100_999 (user_input_of line ''100'')"
  using user_input_no_nl [of line]
  unfolding vm_id_match_iff numeral_100_999_iff by auto

lemma digit_not_space: "in_range c (CHR ''0'', CHR ''9'') \<Longrightarrow> \<not> is_space c"
  by (auto simp: in_range_def is_space_def)

lemma numeral_strip: "numeral_100_999 s \<Longrightarrow> user_input_of s d = s"
  unfolding numeral_100_999_iff
  by (auto simp: user_input_of_def strip_def lstrip_def rstrip_def in_range_def is_space_def)

lemma ask_accept:
  "rematch p (user_input_of (inp k) dflt) \<Longrightarrow>
   ask rematch inp prompt dflt (Some p) error_msg k evs =
     Some (user_input_of (inp k) dflt, Suc k, evs @ [Input (ask_prompt prompt dflt)])"
  by (subst ask.simps) (simp add: Let_def)

lemma ask_reject:
  "\<not> rematch p (user_input_of (inp k) dflt) \<Longrightarrow>
   ask rematch inp prompt dflt (Some p) error_msg k evs =
     ask rematch inp prompt dflt (Some p) error_msg (Suc k)
       (evs @ [Input (ask_prompt prompt dflt), warning error_msg])"
  by (subst ask.simps) (simp add: Let_def)

lemma vm_id_rejects:
  "\<not> re_match vm_id_pattern ''099''" "\<not> re_match vm_id_pattern ''1000''"
  "\<not> re_match vm_id_pattern ''99''"
  by (simp_all add: vm_id_match_iff in_range_def nl_def)

lemma user_input_plain:
  "user_input_of ''099'' d = ''099''" "user_input_of ''1000'' d = ''1000''"
  "user_input_of ''99'' d = ''99''"
  by (simp_all add: user_input_of_def strip_def lstrip_def rstrip_def is_space_def)

text \<open>
  C4. The validation of the container id accepts exactly the three-digit numerals from
  100 to 999. The string that \<open>ask\<close> tries against the pattern is the typed line without
  the whitespace around it, or the default \<open>100\<close> for a blank line; the pattern matches
  such a string exactly when it is a three-digit numeral from 100 to 999. So every string
  \<open>ask\<close> returns for the container id is such a numeral, every such numeral that is
  typed is returned at once, and \<open>099\<close>, \<open>1000\<close> and \<open>99\<close> are refused: a warning
  is printed and the operator is asked again.
\<close>

theorem vm_id_validation:
  "(ask_vm_id inp k evs = Some (s, k', evs') \<longrightarrow> numeral_100_999 s) \<and>
   (numeral_100_999 s \<and> inp k = s \<longrightarrow>
      ask_vm_id inp k evs =
        Some (s, Suc k, evs @ [Input (ask_prompt ''ID del contenedor (100-999)'' ''100'')])) \<and>
   (re_match vm_id_pattern (user_input_of line ''100'') \<longleftrightarrow>
      numeral_100_999 (user_input_of line ''100'')) \<and>
   \<not> re_match vm_id_pattern ''099'' \<and> \<not> re_match vm_id_pattern ''1000'' \<and>
   \<not> re_match vm_id_pattern ''99'' \<and>
   (inp k = ''099'' \<or> inp k = ''1000'' \<or> inp k = ''99'' \<longrightarrow>
      ask_vm_id inp k evs =
        ask_vm_id inp (Suc k)
          (evs @ [Input (ask_prompt ''ID del contenedor (100-999)'' ''100''),
                  warning valor_invalido]))"
proof (intro conjI impI)
  assume a: "ask_vm_id inp k evs = Some (s, k', evs')"
  from a have "ask re_match inp ''ID del contenedor (100-999)'' ''100'' (Some vm_id_pattern)
      valor_invalido k evs = Some (s, k', evs')"
    by (simp add: ask_vm_id_def)
  from ask_result [OF this]
  obtain j where "s = user_input_of (inp j) ''100''" "re_match vm_id_pattern s"
    by auto
  then show "numeral_100_999 s"
    using vm_id_user_input by simp
next
  assume a: "numeral_100_999 s \<and> inp k = s"
  then have u: "user_input_of (inp k) ''100'' = s"
    by (simp add: numeral_strip)
  then have "re_match vm_id_pattern (user_input_of (inp k) ''100'')"
    using a vm_id_user_input [of "inp k"] by simp
  with u ask_accept [of re_match vm_id_pattern inp k "''100''"
      "''ID del contenedor (100-999)''" valor_invalido evs]
  show "ask_vm_id inp k evs =
      Some (s, Suc k, evs @ [Input (ask_prompt ''ID del contenedor (100-999)'' ''100'')])"
    by (simp add: ask_vm_id_def)
next
  show "re_match vm_id_pattern (user_input_of line ''100'') \<longleftrightarrow>
      numeral_100_999 (user_input_of line ''100'')"
    by (rule vm_id_user_input)
next
  show "\<not> re_match vm_id_pattern ''099''" "\<not> re_match vm_id_pattern ''1000''"
    "\<not> re_match vm_id_pattern ''99''"
    by (rule vm_id_rejects)+
next
  assume "inp k = ''099'' \<or> inp k = ''1000'' \<or> inp k = ''99''"
  then have "\<not> re_match vm_id_pattern (user_input_of (inp k) ''100'')"
    using vm_id_rejects by (auto simp: user_input_plain)
  with ask_reject [of re_match vm_id_pattern inp k "''100''"
      "''ID del contenedor (100-999)''" valor_invalido evs]
  show "ask_vm_id inp k evs =
      ask_vm_id inp (Suc k)
        (evs @ [Input (ask_prompt ''ID del contenedor (100-999)'' ''100''),
                warning valor_invalido])"
    by (simp add: ask_vm_id_def)
qed

theorem vm_id_validation_witness:
  "numeral_100_999 ''250'' \<and>
   ask_vm_id (\<lambda>k. ''250'') 0 [] =
     Some (''250'', Suc 0, [Input (ask_prompt ''ID del contenedor (100-999)'' ''100'')]) \<and>
   ask_vm_id (\<lambda>k. ''099'') 0 [] =
     ask_vm_id (\<lambda>k. ''099'') (Suc 0)
       [Input (ask_prompt ''ID del contenedor (100-999)'' ''100''), warning valor_invalido]"
proof -
  have n: "numeral_100_999 ''250''"
    by (simp add: numeral_100_999_def is_digit_def decimal_def)
  from n vm_id_validation [where inp = "\<lambda>k. ''250''" and k = 0 and evs = "[]" and s = "''250''"]
    vm_id_validation [where inp = "\<lambda>k. ''099''" and k = 0 and evs = "[]"]
  show ?thesis by simp
qed



text \<open>
  C9. With a pattern given, every string that \<open>ask\<close> returns matches the pattern, and it
  is the stripped text of one of the lines typed, or the default where that line was blank.
  A blank line is replaced by the default before the pattern is tried: it is returned if
  the default matches; if it does not, a warning is printed and the operator is asked
  again, and when every further line is blank as well the call never returns.
\<close>

theorem ask_validated:
  "(ask rematch inp prompt dflt (Some p) error_msg k evs = Some (s, k', evs') \<longrightarrow>
      rematch p s \<and> (\<exists>j\<ge>k. s = user_input_of (inp j) dflt \<and> k' = Suc j)) \<and>
   (strip (inp k) = [] \<longrightarrow> user_input_of (inp k) dflt = dflt) \<and>
   (strip (inp k) = [] \<and> rematch p dflt \<longrightarrow>
      ask rematch inp prompt dflt (Some p) error_msg k evs =
        Some (dflt, Suc k, evs @ [Input (ask_prompt prompt dflt)])) \<and>
   (strip (inp k) = [] \<and> \<not> rematch p dflt \<longrightarrow>
      ask rematch inp prompt dflt (Some p) error_msg k evs =
        ask rematch inp prompt dflt (Some p) error_msg (Suc k)
          (evs @ [Input (ask_prompt prompt dflt), warning error_msg])) \<and>
   ((\<forall>j\<ge>k. strip (inp j) = []) \<and> \<not> rematch p dflt \<longrightarrow>
      ask rematch inp prompt dflt (Some p) error_msg k evs = None)"
proof (intro conjI impI)
  assume a: "ask rematch inp prompt dflt (Some p) error_msg k evs = Some (s, k', evs')"
  from ask_result [OF a] show "rematch p s"
    by auto
  from ask_result [OF a] show "\<exists>j\<ge>k. s = user_input_of (inp j) dflt \<and> k' = Suc j"
    by auto
next
  assume "strip (inp k) = []"
  then show "user_input_of (inp k) dflt = dflt"
    by (simp add: user_input_of_def)
next
  assume "strip (inp k) = [] \<and> rematch p dflt"
  then have "user_input_of (inp k) dflt = dflt" "rematch p (user_input_of (inp k) dflt)"
    by (simp_all add: user_input_of_def)
  with ask_accept [of rematch p inp k dflt prompt error_msg evs]
  show "ask rematch inp prompt dflt (Some p) error_msg k evs =
      Some (dflt, Suc k, evs @ [Input (ask_prompt prompt dflt)])"
    by simp
next
  assume "strip (inp k) = [] \<and> \<not> rematch p dflt"
  then have "\<not> rematch p (user_input_of (inp k) dflt)"
    by (simp add: user_input_of_def)
  with ask_reject [of rematch p inp k dflt prompt error_msg evs]
  show "ask rematch inp prompt dflt (Some p) error_msg k evs =
      ask rematch inp prompt dflt (Some p) error_msg (Suc k)
        (evs @ [Input (ask_prompt prompt dflt), warning error_msg])"
    by simp
next
  assume a: "(\<forall>j\<ge>k. strip (inp j) = []) \<and> \<not> rematch p dflt"
  show "ask rematch inp prompt dflt (Some p) error_msg k evs = None"
  proof (rule ccontr)
    assume "ask rematch inp prompt dflt (Some p) error_msg k evs \<noteq> None"
    then obtain y where "ask rematch inp prompt dflt (Some p) error_msg k evs = Some y"
      by blast
    from ask_blank_forever [OF this] a show False
      by blast
  qed
qed

theorem ask_validated_witness:
  "ask re_match (\<lambda>k. '' '') ''ID'' ''100'' (Some vm_id_pattern) valor_invalido 0 [] =
     Some (''100'', Suc 0, [Input (ask_prompt ''ID'' ''100'')]) \<and>
   re_match vm_id_pattern ''100'' \<and>
   ask re_match (\<lambda>k. '' '') ''ID'' ''1'' (Some vm_id_pattern) valor_invalido 0 [] = None"
proof -
  have b: "\<And>j. strip ((\<lambda>k. '' '') j) = []"
    by (simp add: strip_def lstrip_def rstrip_def is_space_def)
  have m: "re_match vm_id_pattern ''100''" "\<not> re_match vm_id_pattern ''1''"
    by (simp_all add: vm_id_match_iff in_range_def)
  note t1 = ask_validated [of re_match "\<lambda>k. '' ''" "''ID''" "''100''" vm_id_pattern
      valor_invalido 0 "[]"]
  note t2 = ask_validated [of re_match "\<lambda>k. '' ''" "''ID''" "''1''" vm_id_pattern
      valor_invalido 0 "[]"]
  have r1: "ask re_match (\<lambda>k. '' '') ''ID'' ''100'' (Some vm_id_pattern) valor_invalido 0 [] =
     Some (''100'', Suc 0, [Input (ask_prompt ''ID'' ''100'')])"
    using t1 [THEN conjunct2, THEN conjunct2, THEN conjunct1] b m(1) by simp
  have r2: "ask re_match (\<lambda>k. '' '') ''ID'' ''1'' (Some vm_id_pattern) valor_invalido 0 [] = None"
    using t2 [THEN conjunct2, THEN conjunct2, THEN conjunct2, THEN conjunct2] b m(2) by simp
  from r1 r2 m(1) show ?thesis by simp
qed

section \<open>Properties of the polling loop\<close>

lemma status_ne_ping: "status_cmd h v \<noteq> ping_cmd v'"
  by (simp add: status_cmd_def ping_cmd_def)

lemma run_command_quiet:
  "run_command sh c False False =
     ([Run c],
      case sh c of
        Inl e \<Rightarrow> Raises e
      | Inr r \<Rightarrow> Returns (if returncode r = 0 then Some (strip (stdout r)) else None))"
  by (simp add: run_command_def split: sum.splits)

lemma poll_body_cases:
  assumes "poll_body sh loads h v a shown = (evs, shown', e)"
  shows "is_attempt (status_cmd h v) evs"
    and "e = Break \<longleftrightarrow> attempt_succeeds sh loads h v a"
    and "(\<exists>x. e = Raise x) \<longleftrightarrow> attempt_raises sh loads h v a"
  using assms status_ne_ping [of h v v]
  unfolding poll_body_def run_command_quiet attempt_succeeds_def attempt_raises_def
    reports_running_def status_text_def is_attempt_def msg_info_def msg_def
  by (auto simp: Let_def split: if_splits option.splits json.splits sum.splits)

lemma poll_body_continue:
  assumes "poll_body sh loads h v a shown = (evs, shown', e)"
  shows "e = Continue \<longleftrightarrow> \<not> attempt_succeeds sh loads h v a \<and> \<not> attempt_raises sh loads h v a"
  using poll_body_cases(2,3) [OF assms] by (cases e) auto

lemma attempts_made_le: "attempts_made sh loads h v as \<le> length as"
  by (induction as) auto

lemma poll_loop_blocks:
  "poll_loop sh loads h v as st = (st', e) \<Longrightarrow>
   \<exists>bs. events st' = events st @ concat bs \<and> list_all (is_attempt (status_cmd h v)) bs \<and>
        length bs = attempts_made sh loads h v as"
proof (induction as arbitrary: st)
  case Nil
  then show ?case by auto
next
  case (Cons a as)
  obtain evs shown e1 where b: "poll_body sh loads h v a (network_check_shown st) = (evs, shown, e1)"
    by (cases "poll_body sh loads h v a (network_check_shown st)") auto
  let ?st1 = "\<lparr>attempt = a, network_check_shown = shown, events = events st @ evs\<rparr>"
  note c = poll_body_cases [OF b] poll_body_continue [OF b]
  show ?case
  proof (cases "e1 = Continue")
    case True
    with Cons.prems b have "poll_loop sh loads h v as ?st1 = (st', e)"
      by simp
    from Cons.IH [OF this] obtain bs where
      bs: "events st' = (events st @ evs) @ concat bs" "list_all (is_attempt (status_cmd h v)) bs"
        "length bs = attempts_made sh loads h v as"
      by auto
    have "events st' = events st @ concat (evs # bs)"
      using bs(1) by simp
    moreover have "list_all (is_attempt (status_cmd h v)) (evs # bs)"
      using bs(2) c(1) by simp
    moreover have "length (evs # bs) = attempts_made sh loads h v (a # as)"
      using bs(3) c(4) True by simp
    ultimately show ?thesis by blast
  next
    case False
    with Cons.prems b have "st' = ?st1"
      by (cases e1) auto
    then have "events st' = events st @ concat [evs]"
      by simp
    moreover have "list_all (is_attempt (status_cmd h v)) [evs]"
      using c(1) by simp
    moreover have "length [evs] = attempts_made sh loads h v (a # as)"
      using c(4) False by simp
    ultimately show ?thesis by blast
  qed
qed

lemma poll_loop_stops:
  "\<forall>b\<in>set pre. \<not> attempt_succeeds sh loads h v b \<and> \<not> attempt_raises sh loads h v b \<Longrightarrow>
   attempt_succeeds sh loads h v a \<or> attempt_raises sh loads h v a \<Longrightarrow>
   poll_loop sh loads h v (pre @ a # post) st = (st', e) \<Longrightarrow>
   attempt st' = a \<and> (e = Break \<longleftrightarrow> attempt_succeeds sh loads h v a) \<and> e \<noteq> Continue \<and>
   attempts_made sh loads h v (pre @ a # post) = Suc (length pre)"
proof (induction pre arbitrary: st)
  case Nil
  obtain evs shown e1 where b: "poll_body sh loads h v a (network_check_shown st) = (evs, shown, e1)"
    by (cases "poll_body sh loads h v a (network_check_shown st)") auto
  note c = poll_body_cases [OF b] poll_body_continue [OF b]
  from Nil.prems(2) c(4) have ne: "e1 \<noteq> Continue" by simp
  with Nil.prems(3) b have "st' = \<lparr>attempt = a, network_check_shown = shown, events = events st @ evs\<rparr>" "e = e1"
    by (cases e1; simp)+
  with ne c(2) Nil.prems(2) show ?case by simp
next
  case (Cons x pre)
  obtain evs shown e1 where b: "poll_body sh loads h v x (network_check_shown st) = (evs, shown, e1)"
    by (cases "poll_body sh loads h v x (network_check_shown st)") auto
  note c = poll_body_continue [OF b]
  from Cons.prems(1) c have e1: "e1 = Continue" by simp
  with Cons.prems(3) b have "poll_loop sh loads h v (pre @ a # post)
      \<lparr>attempt = x, network_check_shown = shown, events = events st @ evs\<rparr> = (st', e)"
    by simp
  from Cons.IH [OF _ Cons.prems(2) this] Cons.prems(1) show ?case
    by simp
qed

lemma poll_loop_exhausts:
  "\<forall>b\<in>set as. \<not> attempt_succeeds sh loads h v b \<and> \<not> attempt_raises sh loads h v b \<Longrightarrow>
   poll_loop sh loads h v as st = (st', e) \<Longrightarrow>
   e = Continue \<and> attempts_made sh loads h v as = length as \<and>
   attempt st' = (if as = [] then attempt st else last as)"
proof (induction as arbitrary: st)
  case Nil
  then show ?case by auto
next
  case (Cons x as)
  obtain evs shown e1 where b: "poll_body sh loads h v x (network_check_shown st) = (evs, shown, e1)"
    by (cases "poll_body sh loads h v x (network_check_shown st)") auto
  note c = poll_body_continue [OF b]
  from Cons.prems(1) c have e1: "e1 = Continue" by simp
  with Cons.prems(2) b have "poll_loop sh loads h v as
      \<lparr>attempt = x, network_check_shown = shown, events = events st @ evs\<rparr> = (st', e)"
    by simp
  from Cons.IH [OF _ this] Cons.prems(1) show ?case
    by simp
qed

lemma occurrences_append: "occurrences e (xs @ ys) = occurrences e xs + occurrences e ys"
  by (simp add: occurrences_def)

lemma occurrences_attempt:
  "is_attempt q evs \<Longrightarrow> occurrences (Sleep 5) evs = 1 \<and> occurrences (Run q) evs = 1"
proof -
  assume a: "is_attempt q evs"
  then obtain rest where r: "evs = Sleep 5 # Run q # rest"
    "list_all (\<lambda>x. x \<noteq> Run q \<and> (case x of Sleep n \<Rightarrow> False | _ \<Rightarrow> True)) rest"
    by (auto simp: is_attempt_def split: list.splits)
  have "filter (\<lambda>x. x = Sleep 5) rest = []" "filter (\<lambda>x. x = Run q) rest = []"
    using r(2) by (auto simp: filter_empty_conv list_all_iff)
  with r(1) show ?thesis
    by (simp add: occurrences_def)
qed

lemma occurrences_attempts:
  "list_all (is_attempt q) bs \<Longrightarrow>
   occurrences (Sleep 5) (concat bs) = length bs \<and> occurrences (Run q) (concat bs) = length bs"
  by (induction bs) (auto simp: occurrences_append occurrences_attempt, simp_all add: occurrences_def)

lemma upt_split: "a < n \<Longrightarrow> [0 ..< n] = [0 ..< a] @ a # [Suc a ..< n]"
  by (metis upt_conv_Cons upt_add_eq_append le0 add_0 less_imp_add_positive plus_nat.add_0 le_add1)

lemma wait_log:
  "\<exists>bs rest. fst (wait_for_container sh loads h v) =
       msg_info ''Esperando a que el contenedor se inicie...'' # concat bs @ rest \<and>
     list_all (is_attempt (status_cmd h v)) bs \<and>
     length bs = attempts_made sh loads h v [0 ..< 30] \<and>
     list_all (\<lambda>x. case x of Stdout t \<Rightarrow> True | _ \<Rightarrow> False) rest"
proof -
  let ?st0 = "\<lparr>attempt = 0, network_check_shown = False,
             events = [msg_info ''Esperando a que el contenedor se inicie...'']\<rparr>"
  obtain st e where p: "poll_loop sh loads h v [0 ..< 30] ?st0 = (st, e)"
    by (cases "poll_loop sh loads h v [0 ..< 30] ?st0") auto
  from poll_loop_blocks [OF p] obtain bs where
    bs: "events st = [msg_info ''Esperando a que el contenedor se inicie...''] @ concat bs"
      "list_all (is_attempt (status_cmd h v)) bs"
      "length bs = attempts_made sh loads h v [0 ..< 30]"
    by auto
  have "\<exists>rest. fst (wait_for_container sh loads h v) = events st @ rest \<and>
     list_all (\<lambda>x. case x of Stdout t \<Rightarrow> True | _ \<Rightarrow> False) rest"
    using p unfolding wait_for_container_def
    by (cases e) (auto simp: limited_warning_def warning_def success_def msg_def)
  with bs show ?thesis by auto
qed

lemma occurrences_stdout:
  "list_all (\<lambda>x. case x of Stdout t \<Rightarrow> True | _ \<Rightarrow> False) rest \<Longrightarrow>
   occurrences (Sleep n) rest = 0 \<and> occurrences (Run q) rest = 0"
  by (induction rest) (auto simp: occurrences_def)

lemma attempts_made_first:
  assumes "a < 30" "attempt_succeeds sh loads h v a"
    "\<forall>b<a. \<not> attempt_succeeds sh loads h v b \<and> \<not> attempt_raises sh loads h v b"
  shows "attempts_made sh loads h v [0 ..< 30] = Suc a"
proof -
  let ?st0 = "\<lparr>attempt = 0, network_check_shown = False, events = []\<rparr>"
  obtain st e where
    p: "poll_loop sh loads h v ([0 ..< a] @ a # [Suc a ..< 30]) ?st0 = (st, e)"
    by (cases "poll_loop sh loads h v ([0 ..< a] @ a # [Suc a ..< 30]) ?st0") auto
  have "\<forall>b\<in>set [0 ..< a]. \<not> attempt_succeeds sh loads h v b \<and> \<not> attempt_raises sh loads h v b"
    using assms(3) by simp
  from poll_loop_stops [OF this _ p] assms(2)
  have "attempts_made sh loads h v ([0 ..< a] @ a # [Suc a ..< 30]) = Suc a"
    by simp
  with upt_split [OF assms(1)] show ?thesis by simp
qed

text \<open>
  C6. The events of the wait are the announcement, then the attempts, then messages
  only. There are at most 30 attempts; each starts with a sleep of five seconds, followed
  at once by the status query, and holds no other sleep and no other status query. So
  there are never more than 30 status queries, and as many sleeps as queries. The loop is
  left in the first attempt that succeeds (status \<open>running\<close> and a ping that returns a
  result): when that is attempt \<open>a\<close>, counted from 0, and no earlier attempt ended the
  script with an exception, exactly \<open>a + 1\<close> status queries are made.
\<close>

theorem readiness_poller_bounded:
  "(\<exists>bs rest. fst (wait_for_container sh loads h v) =
        msg_info ''Esperando a que el contenedor se inicie...'' # concat bs @ rest \<and>
      list_all (is_attempt (status_cmd h v)) bs \<and> length bs \<le> 30 \<and>
      occurrences (Sleep 5) rest = 0 \<and> occurrences (Run (status_cmd h v)) rest = 0) \<and>
   occurrences (Run (status_cmd h v)) (fst (wait_for_container sh loads h v)) \<le> 30 \<and>
   occurrences (Sleep 5) (fst (wait_for_container sh loads h v)) =
     occurrences (Run (status_cmd h v)) (fst (wait_for_container sh loads h v)) \<and>
   (\<forall>a<30. attempt_succeeds sh loads h v a \<and>
        (\<forall>b<a. \<not> attempt_succeeds sh loads h v b \<and> \<not> attempt_raises sh loads h v b) \<longrightarrow>
      occurrences (Run (status_cmd h v)) (fst (wait_for_container sh loads h v)) = Suc a)"
proof -
  obtain bs rest where
    w: "fst (wait_for_container sh loads h v) =
          msg_info ''Esperando a que el contenedor se inicie...'' # concat bs @ rest"
      "list_all (is_attempt (status_cmd h v)) bs"
      "length bs = attempts_made sh loads h v [0 ..< 30]"
      "list_all (\<lambda>x. case x of Stdout t \<Rightarrow> True | _ \<Rightarrow> False) rest"
    using wait_log [of sh loads h v] by blast
  have le: "length bs \<le> 30"
    using w(3) attempts_made_le [of sh loads h v "[0 ..< 30]"] by simp
  note o1 = occurrences_stdout [OF w(4)] and o2 = occurrences_attempts [OF w(2)]
  have i: "occurrences (Sleep 5) [msg_info ''Esperando a que el contenedor se inicie...''] = 0"
    "occurrences (Run (status_cmd h v)) [msg_info ''Esperando a que el contenedor se inicie...''] = 0"
    by (simp_all add: occurrences_def msg_info_def msg_def)
  have w': "fst (wait_for_container sh loads h v) =
      [msg_info ''Esperando a que el contenedor se inicie...''] @ concat bs @ rest"
    using w(1) by simp
  have n: "occurrences (Run (status_cmd h v)) (fst (wait_for_container sh loads h v)) = length bs"
    "occurrences (Sleep 5) (fst (wait_for_container sh loads h v)) = length bs"
    unfolding w' occurrences_append using o1 o2 i by simp_all
  have first: "\<forall>a<30. attempt_succeeds sh loads h v a \<and>
        (\<forall>b<a. \<not> attempt_succeeds sh loads h v b \<and> \<not> attempt_raises sh loads h v b) \<longrightarrow>
      occurrences (Run (status_cmd h v)) (fst (wait_for_container sh loads h v)) = Suc a"
    using attempts_made_first [of _ sh loads h v] w(3) n(1) by auto
  have "\<exists>bs rest. fst (wait_for_container sh loads h v) =
        msg_info ''Esperando a que el contenedor se inicie...'' # concat bs @ rest \<and>
      list_all (is_attempt (status_cmd h v)) bs \<and> length bs \<le> 30 \<and>
      occurrences (Sleep 5) rest = 0 \<and> occurrences (Run (status_cmd h v)) rest = 0"
    using w(1,2) le o1 by blast
  with n le first show ?thesis by simp
qed

lemma ready_at_facts:
  "attempt_succeeds (sh_ready_at n) loads_status h v n"
  "b \<noteq> n \<Longrightarrow> \<not> attempt_succeeds (sh_ready_at n) loads_status h v b"
  "\<not> attempt_raises (sh_ready_at n) loads_status h v b"
  by (simp_all add: attempt_succeeds_def attempt_raises_def reports_running_def status_text_def
      sh_ready_at_def loads_status_def strip_def lstrip_def rstrip_def is_space_def)

theorem readiness_poller_bounded_witness:
  "occurrences (Run (status_cmd ''pve'' ''100''))
     (fst (wait_for_container (sh_ready_at 2) loads_status ''pve'' ''100'')) = 3"
proof -
  have "attempt_succeeds (sh_ready_at 2) loads_status ''pve'' ''100'' 2 \<and>
      (\<forall>b<2. \<not> attempt_succeeds (sh_ready_at 2) loads_status ''pve'' ''100'' b \<and>
             \<not> attempt_raises (sh_ready_at 2) loads_status ''pve'' ''100'' b)"
    using ready_at_facts [where n = 2] by simp
  with readiness_poller_bounded [of "sh_ready_at 2" loads_status "''pve''" "''100''",
      THEN conjunct2, THEN conjunct2, THEN conjunct2, rule_format, of 2]
  show ?thesis by simp
qed

lemma poll_body_no_warning:
  "poll_body sh loads h v a shown = (evs, shown', e) \<Longrightarrow> limited_warning \<notin> set evs"
  unfolding poll_body_def run_command_quiet limited_warning_def warning_def msg_info_def msg_def
  by (auto simp: Let_def C_def colours_def split: if_splits option.splits sum.splits)

lemma poll_loop_no_warning:
  "poll_loop sh loads h v as st = (st', e) \<Longrightarrow> limited_warning \<notin> set (events st) \<Longrightarrow>
   limited_warning \<notin> set (events st')"
proof (induction as arbitrary: st)
  case Nil
  then show ?case by auto
next
  case (Cons a as)
  obtain evs shown e1 where b: "poll_body sh loads h v a (network_check_shown st) = (evs, shown, e1)"
    by (cases "poll_body sh loads h v a (network_check_shown st)") auto
  let ?st1 = "\<lparr>attempt = a, network_check_shown = shown, events = events st @ evs\<rparr>"
  have nw: "limited_warning \<notin> set (events ?st1)"
    using Cons.prems(2) poll_body_no_warning [OF b] by simp
  show ?case
  proof (cases "e1 = Continue")
    case True
    with Cons.prems(1) b have "poll_loop sh loads h v as ?st1 = (st', e)"
      by simp
    from Cons.IH [OF this nw] show ?thesis .
  next
    case False
    with Cons.prems(1) b have "st' = ?st1"
      by (cases e1) auto
    with nw show ?thesis by simp
  qed
qed

lemma wait_warning:
  assumes "poll_loop sh loads h v [0 ..< 30]
      \<lparr>attempt = 0, network_check_shown = False,
       events = [msg_info ''Esperando a que el contenedor se inicie...'']\<rparr> = (st, e)"
    and "\<forall>x. e \<noteq> Raise x"
  shows "limited_warning \<in> set (fst (wait_for_container sh loads h v)) \<longleftrightarrow> 29 \<le> attempt st"
proof -
  have "limited_warning \<notin> set [msg_info ''Esperando a que el contenedor se inicie...'']"
    by (simp add: limited_warning_def warning_def msg_info_def msg_def C_def colours_def)
  with poll_loop_no_warning [OF assms(1)] have nw: "limited_warning \<notin> set (events st)"
    by simp
  have ns: "limited_warning \<noteq> Stdout ''''"
    "limited_warning \<noteq> success ''Red OK, contenedor iniciado''"
    by (simp_all add: limited_warning_def warning_def success_def msg_def C_def colours_def)
  show ?thesis
    using assms nw ns unfolding wait_for_container_def
    by (cases e) auto
qed

lemma limited_warning_cases:
  fixes sh :: "nat \<Rightarrow> string \<Rightarrow> exn + proc" and loads :: "string \<Rightarrow> 'f json option"
  assumes "\<forall>b<a. \<not> attempt_succeeds sh loads h v b \<and> \<not> attempt_raises sh loads h v b"
  shows "a < 29 \<Longrightarrow> attempt_succeeds sh loads h v a \<Longrightarrow>
           limited_warning \<notin> set (fst (wait_for_container sh loads h v))"
    and "a = 29 \<Longrightarrow> attempt_succeeds sh loads h v a \<Longrightarrow>
           limited_warning \<in> set (fst (wait_for_container sh loads h v))"
    and "a = 30 \<Longrightarrow> limited_warning \<in> set (fst (wait_for_container sh loads h v))"
proof -
  let ?st0 = "\<lparr>attempt = 0, network_check_shown = False,
       events = [msg_info ''Esperando a que el contenedor se inicie...'']\<rparr>"
  obtain st e where p: "poll_loop sh loads h v [0 ..< 30] ?st0 = (st, e)"
    by (cases "poll_loop sh loads h v [0 ..< 30] ?st0") auto
  have pre: "\<forall>b\<in>set [0 ..< a]. \<not> attempt_succeeds sh loads h v b \<and> \<not> attempt_raises sh loads h v b"
    using assms by simp
  have stop: "attempt st = a \<and> e = Break" if "a < 30" "attempt_succeeds sh loads h v a"
  proof -
    from p upt_split [OF that(1)]
    have "poll_loop sh loads h v ([0 ..< a] @ a # [Suc a ..< 30]) ?st0 = (st, e)"
      by simp
    from poll_loop_stops [OF pre _ this] that(2) show ?thesis
      by simp
  qed
  show "limited_warning \<notin> set (fst (wait_for_container sh loads h v))"
    if "a < 29" "attempt_succeeds sh loads h v a"
    using stop that wait_warning [OF p] by simp
  show "limited_warning \<in> set (fst (wait_for_container sh loads h v))"
    if "a = 29" "attempt_succeeds sh loads h v a"
    using stop that wait_warning [OF p] by simp
  show "limited_warning \<in> set (fst (wait_for_container sh loads h v))" if "a = 30"
  proof -
    from pre that poll_loop_exhausts [OF _ p]
    have "e = Continue \<and> attempt st = 29"
      by simp
    with wait_warning [OF p] show ?thesis by simp
  qed
qed

text \<open>
  C7. On a host where the first 29 attempts fail and the 30th finds the container running
  and the ping answering, the loop is left by \<open>break\<close> in the attempt that
  succeeds, and the warning about limited connectivity is printed all the same: the test
  after the loop, \<open>attempt >= 29\<close>, cannot tell the success in the last attempt from
  30 failed attempts.
\<close>

theorem warning_after_success_in_last_attempt:
  "attempt_succeeds (sh_ready_at 29) loads_status ''pve'' ''100'' 29 \<and>
   snd (poll_loop (sh_ready_at 29) loads_status ''pve'' ''100'' [0 ..< 30]
          \<lparr>attempt = 0, network_check_shown = False,
           events = [msg_info ''Esperando a que el contenedor se inicie...'']\<rparr>) = Break \<and>
   limited_warning \<in> set (fst (wait_for_container (sh_ready_at 29) loads_status ''pve'' ''100''))"
proof -
  let ?st0 = "\<lparr>attempt = 0, network_check_shown = False,
       events = [msg_info ''Esperando a que el contenedor se inicie...'']\<rparr>"
  have f: "\<forall>b<29. \<not> attempt_succeeds (sh_ready_at 29) loads_status ''pve'' ''100'' b \<and>
      \<not> attempt_raises (sh_ready_at 29) loads_status ''pve'' ''100'' b"
    using ready_at_facts [where n = 29] by simp
  have s: "attempt_succeeds (sh_ready_at 29) loads_status ''pve'' ''100'' 29"
    by (rule ready_at_facts)
  obtain st e where p: "poll_loop (sh_ready_at 29) loads_status ''pve'' ''100'' [0 ..< 30] ?st0 = (st, e)"
    by (cases "poll_loop (sh_ready_at 29) loads_status ''pve'' ''100'' [0 ..< 30] ?st0") auto
  have "\<forall>b\<in>set [0 ..< 29]. \<not> attempt_succeeds (sh_ready_at 29) loads_status ''pve'' ''100'' b \<and>
      \<not> attempt_raises (sh_ready_at 29) loads_status ''pve'' ''100'' b"
    using f by simp
  moreover have "poll_loop (sh_ready_at 29) loads_status ''pve'' ''100''
      ([0 ..< 29] @ 29 # [Suc 29 ..< 30]) ?st0 = (st, e)"
    using p upt_split [of 29 30] by simp
  ultimately have "e = Break"
    using poll_loop_stops [of "[0 ..< 29]" "sh_ready_at 29" loads_status "''pve''" "''100''" 29
        "[Suc 29 ..< 30]" ?st0 st e] s
    by simp
  with p s limited_warning_cases(2) [OF f refl s] show ?thesis
    by simp
qed

section \<open>Properties of the network configuration file\<close>

lemma sublist_between: "s = a @ b @ c \<Longrightarrow> sublist b s"
  by (auto simp: sublist_def)

text \<open>
  C5. Whatever the address, the gateway and the DNS string are, the generated file holds
  them as they are: the line \<open>addresses: ['IP/32']\<close> with the address, the line
  \<open>gateway4: GW\<close> and, under \<open>routes\<close>, the link-scope route \<open>to: GW/32\<close> with the
  gateway, and under \<open>nameservers\<close> the line \<open>addresses: [DNS]\<close> with the DNS string.
\<close>

theorem netplan_config_values:
  "sublist (ln (''      addresses: ['' @ [sq] @ ip_address @ ''/32'' @ [sq] @ '']''))
     (netplan_config ip_address gateway dns_servers) \<and>
   sublist (ln (''      gateway4: '' @ gateway))
     (netplan_config ip_address gateway dns_servers) \<and>
   sublist (ln ''      routes:'' @ ln ''      - scope: link'' @
            ln (''        to: '' @ gateway @ ''/32''))
     (netplan_config ip_address gateway dns_servers) \<and>
   sublist (ln ''      nameservers:'' @ ln (''        addresses: ['' @ dns_servers @ '']''))
     (netplan_config ip_address gateway dns_servers)"
proof (intro conjI)
  let ?cfg = "netplan_config ip_address gateway dns_servers"
  let ?l1 = "ln (''# Configuraci'' @ [CHR 0xF3] @ ''n de red para IP p'' @ [CHR 0xFA] @ ''blica'')"
  let ?ip = "ln (''      addresses: ['' @ [sq] @ ip_address @ ''/32'' @ [sq] @ '']'')"
  let ?gw = "ln (''      gateway4: '' @ gateway)"
  let ?dns = "ln (''        addresses: ['' @ dns_servers @ '']'')"
  let ?to = "ln (''        to: '' @ gateway @ ''/32'')"
  have "?cfg = (?l1 @ ln ''network:'' @ ln ''  ethernets:'' @ ln ''    eth0:'') @ ?ip @
      (?gw @ ln ''      nameservers:'' @ ?dns @ ln ''      routes:'' @
       ln ''      - scope: link'' @ ?to @ ln ''        via: 0.0.0.0'' @ ln ''  version: 2'')"
    by (simp add: netplan_config_def)
  then show "sublist ?ip ?cfg"
    by (rule sublist_between)
  have "?cfg = (?l1 @ ln ''network:'' @ ln ''  ethernets:'' @ ln ''    eth0:'' @ ?ip) @ ?gw @
      (ln ''      nameservers:'' @ ?dns @ ln ''      routes:'' @
       ln ''      - scope: link'' @ ?to @ ln ''        via: 0.0.0.0'' @ ln ''  version: 2'')"
    by (simp add: netplan_config_def)
  then show "sublist ?gw ?cfg"
    by (rule sublist_between)
  have "?cfg = (?l1 @ ln ''network:'' @ ln ''  ethernets:'' @ ln ''    eth0:'' @ ?ip @ ?gw @
       ln ''      nameservers:'' @ ?dns) @
      (ln ''      routes:'' @ ln ''      - scope: link'' @ ?to) @
      (ln ''        via: 0.0.0.0'' @ ln ''  version: 2'')"
    by (simp add: netplan_config_def)
  then show "sublist (ln ''      routes:'' @ ln ''      - scope: link'' @ ?to) ?cfg"
    by (rule sublist_between)
  have "?cfg = (?l1 @ ln ''network:'' @ ln ''  ethernets:'' @ ln ''    eth0:'' @ ?ip @ ?gw) @
      (ln ''      nameservers:'' @ ?dns) @
      (ln ''      routes:'' @ ln ''      - scope: link'' @ ?to @
       ln ''        via: 0.0.0.0'' @ ln ''  version: 2'')"
    by (simp add: netplan_config_def)
  then show "sublist (ln ''      nameservers:'' @ ?dns) ?cfg"
    by (rule sublist_between)
qed

section \<open>Properties of check_custom_modules\<close>

lemma walk_append:
  "walk root (p @ q) = (case walk root p of None \<Rightarrow> None | Some n \<Rightarrow> walk n q)"
proof (induction root p rule: walk.induct)
  case (1 n)
  then show ?case by simp
next
  case (2 x xs)
  then show ?case by simp
next
  case (3 es x xs)
  then show ?case by (simp split: option.splits)
qed

lemma module_filter:
  assumes "walk root md = Some (Dir es)" "distinct (map fst es)"
  shows "filter (\<lambda>item. isdir root (md @ [item]) \<and>
                         path_exists root ((md @ [item]) @ [''__manifest__.py''])) (map fst es) =
         subdirs_with_entry ''__manifest__.py'' es"
proof -
  have "(isdir root (md @ [fst e]) \<and> path_exists root ((md @ [fst e]) @ [''__manifest__.py''])) =
        holds_entry ''__manifest__.py'' (snd e)" if "e \<in> set es" for e
  proof -
    from that assms(2) have m: "map_of es (fst e) = Some (snd e)"
      by (simp add: map_of_is_SomeI)
    show ?thesis
      using assms(1) m
      by (cases "snd e") (simp_all add: isdir_def path_exists_def walk_append split: option.splits)
  qed
  then show ?thesis
    by (simp add: subdirs_with_entry_def filter_map comp_def cong: filter_cong)
qed

lemma subdirs_with_entry_set:
  "set (subdirs_with_entry name es) =
     {n. \<exists>g. (n, Dir g) \<in> set es \<and> name \<in> fst ` set g}"
proof -
  have "holds_entry name m \<longleftrightarrow> (\<exists>g. m = Dir g \<and> name \<in> fst ` set g)" for m
    by (cases m) (auto simp: map_of_eq_None_iff)
  then show ?thesis
    by (force simp: subdirs_with_entry_def)
qed

text \<open>
  C10, as the code has it. When the \<open>modules\<close> directory of the script does not exist,
  \<open>check_custom_modules\<close> prints a message and returns the empty list. When it is a
  directory (whose entries have distinct names), the function returns, in the order of the
  listing, exactly the names of its entries that are directories holding an entry named
  \<open>__manifest__.py\<close>, whether that entry is a file or a directory; files and directories
  without such an entry are left out. When \<open>modules\<close> is a file, \<open>os.listdir\<close>
  raises.
\<close>

theorem check_custom_modules_entries:
  "(walk root (script_dir @ [''modules'']) = None \<longrightarrow>
      check_custom_modules root script_dir =
        ([msg_info (''No se encontr'' @ [CHR 0xF3] @ '' el directorio '' @ [sq] @ ''modules'' @ [sq])],
         Returns ([], script_dir @ [''modules'']))) \<and>
   (walk root (script_dir @ [''modules'']) = Some File \<longrightarrow>
      check_custom_modules root script_dir = ([], Raises NotADirectoryError)) \<and>
   (walk root (script_dir @ [''modules'']) = Some (Dir es) \<and> distinct (map fst es) \<longrightarrow>
      check_custom_modules root script_dir =
        ([], Returns (subdirs_with_entry ''__manifest__.py'' es, script_dir @ [''modules'']))) \<and>
   set (subdirs_with_entry ''__manifest__.py'' es) =
     {n. \<exists>g. (n, Dir g) \<in> set es \<and> ''__manifest__.py'' \<in> fst ` set g}"
  using module_filter [of root "script_dir @ [''modules'']" es]
    subdirs_with_entry_set [of "''__manifest__.py''" es]
  by (simp add: check_custom_modules_def path_exists_def listdir_def Let_def)

lemma disk_modules: "walk disk [''opt'', ''deploy'', ''modules''] = Some (Dir module_entries)"
  by (simp add: disk_def)

theorem check_custom_modules_entries_witness:
  "check_custom_modules disk [''opt'', ''deploy''] =
     ([], Returns ([''sale_ext'', ''odd''], [''opt'', ''deploy'', ''modules''])) \<and>
   check_custom_modules disk [''opt''] =
     ([msg_info (''No se encontr'' @ [CHR 0xF3] @ '' el directorio '' @ [sq] @ ''modules'' @ [sq])],
      Returns ([], [''opt'', ''modules'']))"
proof -
  have d: "distinct (map fst module_entries)"
    by (simp add: module_entries_def)
  have n: "walk disk ([''opt''] @ [''modules'']) = None"
    by (simp add: disk_def)
  have e: "subdirs_with_entry ''__manifest__.py'' module_entries = [''sale_ext'', ''odd'']"
    by (simp add: subdirs_with_entry_def module_entries_def)
  from check_custom_modules_entries [of disk "[''opt'', ''deploy'']" module_entries] disk_modules d e
  have "check_custom_modules disk [''opt'', ''deploy''] =
     ([], Returns ([''sale_ext'', ''odd''], [''opt'', ''deploy'', ''modules'']))"
    by simp
  moreover from check_custom_modules_entries [of disk "[''opt'']" module_entries] n
  have "check_custom_modules disk [''opt''] =
     ([msg_info (''No se encontr'' @ [CHR 0xF3] @ '' el directorio '' @ [sq] @ ''modules'' @ [sq])],
      Returns ([], [''opt'', ''modules'']))"
    by simp
  ultimately show ?thesis by simp
qed

text \<open>
  The claim as it is written asks for a file named \<open>__manifest__.py\<close>. On the disk
  above, \<open>odd\<close> holds a directory of that name and no such file, and the function
  returns \<open>odd\<close> as a module.
\<close>

theorem check_custom_modules_counterexample:
  "walk disk [''opt'', ''deploy'', ''modules''] = Some (Dir module_entries) \<and>
   snd (check_custom_modules disk [''opt'', ''deploy'']) =
     Returns ([''sale_ext'', ''odd''], [''opt'', ''deploy'', ''modules'']) \<and>
   subdirs_with_file ''__manifest__.py'' module_entries = [''sale_ext'']"
  by (simp add: disk_def check_custom_modules_def path_exists_def listdir_def isdir_def
      subdirs_with_file_def module_entries_def)

section \<open>Properties of the storage display\<close>

lemma gt_zero_not_zero: "gt_zero ops t \<Longrightarrow> \<not> is_zero ops t"
  by (cases t) auto

lemma truediv_nonzero:
  assumes "float_ops_ok ops" "\<not> is_zero ops y"
  shows "py_truediv ops x y \<noteq> Inl ZeroDivisionError"
proof (cases x; cases y)
  fix a b assume "x = NInt a" "y = NInt b"
  with assms(2) show ?thesis by (simp split: option.splits)
next
  fix a g assume "x = NInt a" "y = NFloat g"
  with assms(2) show ?thesis by (simp add: float_div_def split: option.splits)
next
  fix f b assume xy: "x = NFloat f" "y = NInt b"
  with assms(2) have "b \<noteq> 0" by simp
  with assms(1) have "\<And>g. to_float ops b = Some g \<Longrightarrow> fsign ops g \<noteq> Some Zero"
    by (auto simp: float_ops_ok_def)
  with xy show ?thesis by (simp add: float_div_def split: option.splits)
next
  fix f g assume "x = NFloat f" "y = NFloat g"
  with assms(2) show ?thesis by (simp add: float_div_def)
qed

lemma used_percent_divisions:
  "\<forall>d\<in>set (fst (used_percent ops used total')). \<not> is_zero ops (snd d)"
  by (auto simp: used_percent_def divide_def gt_zero_not_zero
      split: option.splits sum.splits if_splits)

lemma used_percent_no_zero_division:
  assumes "float_ops_ok ops"
  shows "snd (used_percent ops used total') \<noteq> Raises ZeroDivisionError"
proof -
  have m: "py_mul ops u (NInt 100) \<noteq> Inl ZeroDivisionError" for u
    by (cases u) (auto split: option.splits)
  have f: "format_2f ops q \<noteq> Inl ZeroDivisionError" for q
    by (auto simp: format_2f_def split: num.splits option.splits)
  show ?thesis
    using truediv_nonzero [OF assms gt_zero_not_zero] m f
    by (auto simp: used_percent_def divide_def split: option.splits sum.splits if_splits)
qed

lemma format_size_divisions:
  "\<forall>d\<in>set (fst (format_size ops v)). \<not> is_zero ops (snd d)"
  by (auto simp: format_size_def divide_def split: option.splits sum.splits prod.splits)

lemma format_size_no_zero_division:
  assumes "float_ops_ok ops"
  shows "snd (format_size ops v) \<noteq> Raises ZeroDivisionError"
proof -
  have d: "py_truediv ops x (NInt 1024) \<noteq> Inl ZeroDivisionError" for x
    using truediv_nonzero [OF assms, of "NInt 1024" x] by simp
  have f: "format_2f ops q \<noteq> Inl ZeroDivisionError" for q
    by (auto simp: format_2f_def split: num.splits option.splits)
  show ?thesis
    using d f
    by (auto simp: format_size_def divide_def split: option.splits sum.splits)
qed

lemma usage_displays_divisions:
  "\<forall>d\<in>set (fst (usage_displays ops a t u)). \<not> is_zero ops (snd d)"
  using format_size_divisions [of ops a] format_size_divisions [of ops t]
    format_size_divisions [of ops u] used_percent_divisions [of ops u t]
  by (auto simp: usage_displays_def split: prod.splits outcome.splits)

lemma usage_displays_no_zero_division:
  assumes "float_ops_ok ops"
  shows "snd (usage_displays ops a t u) \<noteq> Raises ZeroDivisionError"
  using format_size_no_zero_division [OF assms, of a] format_size_no_zero_division [OF assms, of t]
    format_size_no_zero_division [OF assms, of u] used_percent_no_zero_division [OF assms, of u t]
  by (auto simp: usage_displays_def split: prod.splits outcome.splits)

lemma usage_displays_percent:
  "snd (usage_displays ops a t u) = Returns (ad, td, ud, p) \<Longrightarrow>
   snd (used_percent ops u t) = Returns p"
  by (auto simp: usage_displays_def split: prod.splits outcome.splits)

lemma py_in_no_zero_division: "py_in x v \<noteq> Inl ZeroDivisionError"
  by (cases v) simp_all

lemma content_support_no_zero_division: "content_support info \<noteq> Inl ZeroDivisionError"
  using py_in_no_zero_division [of "''rootdir''"] py_in_no_zero_division [of "''vztmpl''"]
  by (auto simp: content_support_def Let_def split: sum.splits option.splits)

lemma show_storages_divisions:
  "\<forall>d\<in>set (fst (show_storages ops storage_data storages)). \<not> is_zero ops (snd d)"
proof (induction storages)
  case Nil
  then show ?case by simp
next
  case (Cons name storages)
  show ?case
  proof (cases "storage_info storage_data name")
    case (Inl e)
    then show ?thesis by simp
  next
    case (Inr info)
    with Cons usage_displays_divisions [of ops "get_or_na info ''avail''" "get_or_na info ''total''"
        "get_or_na info ''used''"]
    show ?thesis
      by (auto simp: storage_usage_def split: prod.splits outcome.splits sum.splits)
  qed
qed

lemma show_storages_no_zero_division:
  assumes "float_ops_ok ops"
  shows "snd (show_storages ops storage_data storages) \<noteq> Raises ZeroDivisionError"
proof (induction storages)
  case Nil
  then show ?case by simp
next
  case (Cons name storages)
  have k: "storage_info storage_data name \<noteq> Inl ZeroDivisionError"
    by (induction storage_data) (auto split: option.splits)
  show ?case
  proof (cases "storage_info storage_data name")
    case (Inl e)
    with k show ?thesis by simp
  next
    case (Inr info)
    with Cons content_support_no_zero_division [of info]
      usage_displays_no_zero_division [OF assms, of "get_or_na info ''avail''"
        "get_or_na info ''total''" "get_or_na info ''used''"]
    show ?thesis
      by (auto simp: storage_usage_def split: prod.splits outcome.splits sum.splits)
  qed
qed

lemma show_storages_null_content:
  "show_storages ops [[(''storage'', JStr ''local''), (''content'', JNull)]] [''local''] =
     ([], Raises TypeError)"
  by (simp add: content_support_def)

text \<open>
  C3. The percentage of a descriptor is the text \<open>N/A\<close>, with no division carried
  out, unless \<open>used\<close> and \<open>total\<close> are both numbers and \<open>total\<close> is greater than
  zero; in particular it is \<open>N/A\<close> when \<open>total\<close> is zero. When they are numbers and
  \<open>total\<close> is greater than zero, the one division is that of \<open>used * 100\<close> by
  \<open>total\<close>, and the text is its quotient in the format \<open>.2f\<close> followed by the percent
  sign. No division of the display code, those of \<open>format_size\<close> included, has a
  divisor that is zero, and \<open>ZeroDivisionError\<close> is never raised. The percentage that
  \<open>show_storages\<close> prints for a descriptor is the one computed from its members
  \<open>used\<close> and \<open>total\<close>, and the same holds for the whole loop of \<open>show_storages\<close>.
\<close>

theorem used_percent_guarded:
  "(as_number used = None \<or> as_number total' = None \<or>
      (\<exists>t. as_number total' = Some t \<and> \<not> gt_zero ops t) \<longrightarrow>
      used_percent ops used total' = ([], Returns ''N/A'')) \<and>
   (\<forall>t. as_number total' = Some t \<and> is_zero ops t \<longrightarrow>
      used_percent ops used total' = ([], Returns ''N/A'')) \<and>
   (\<forall>u t. as_number used = Some u \<and> as_number total' = Some t \<and> gt_zero ops t \<longrightarrow>
      used_percent ops used total' =
        (case py_mul ops u (NInt 100) of
           Inl e \<Rightarrow> ([], Raises e)
         | Inr x \<Rightarrow>
             ([(x, t)],
              case py_truediv ops x t of
                Inl e \<Rightarrow> Raises e
              | Inr q \<Rightarrow> (case format_2f ops q of
                           Inl e \<Rightarrow> Raises e | Inr s \<Rightarrow> Returns (s @ ''%''))))) \<and>
   (\<forall>m n. used = JInt m \<and> total' = JInt n \<and> 0 < n \<longrightarrow>
      used_percent ops used total' =
        ([(NInt (m * 100), NInt n)],
         case int_truediv ops (m * 100) n of
           None \<Rightarrow> Raises OverflowError
         | Some f \<Rightarrow> Returns (fmt2 ops f @ ''%''))) \<and>
   (\<forall>d\<in>set (fst (used_percent ops used total')). \<not> is_zero ops (snd d)) \<and>
   (\<forall>d\<in>set (fst (storage_usage ops info)). \<not> is_zero ops (snd d)) \<and>
   (float_ops_ok ops \<longrightarrow>
      snd (used_percent ops used total') \<noteq> Raises ZeroDivisionError \<and>
      snd (storage_usage ops info) \<noteq> Raises ZeroDivisionError) \<and>
   (\<forall>ad td ud p. snd (storage_usage ops info) = Returns (ad, td, ud, p) \<longrightarrow>
      snd (used_percent ops (get_or_na info ''used'') (get_or_na info ''total'')) = Returns p) \<and>
   (\<forall>d\<in>set (fst (show_storages ops storage_data storages)). \<not> is_zero ops (snd d)) \<and>
   (float_ops_ok ops \<longrightarrow>
      snd (show_storages ops storage_data storages) \<noteq> Raises ZeroDivisionError)"
proof (intro conjI allI impI)
  assume "as_number used = None \<or> as_number total' = None \<or>
      (\<exists>t. as_number total' = Some t \<and> \<not> gt_zero ops t)"
  then show "used_percent ops used total' = ([], Returns ''N/A'')"
    by (auto simp: used_percent_def split: option.splits)
next
  fix t assume "as_number total' = Some t \<and> is_zero ops t"
  then show "used_percent ops used total' = ([], Returns ''N/A'')"
    using gt_zero_not_zero [of ops t]
    by (auto simp: used_percent_def split: option.splits)
next
  fix u t assume "as_number used = Some u \<and> as_number total' = Some t \<and> gt_zero ops t"
  then show "used_percent ops used total' =
        (case py_mul ops u (NInt 100) of
           Inl e \<Rightarrow> ([], Raises e)
         | Inr x \<Rightarrow>
             ([(x, t)],
              case py_truediv ops x t of
                Inl e \<Rightarrow> Raises e
              | Inr q \<Rightarrow> (case format_2f ops q of
                           Inl e \<Rightarrow> Raises e | Inr s \<Rightarrow> Returns (s @ ''%''))))"
    by (auto simp: used_percent_def divide_def split: sum.splits)
next
  fix m n assume "used = JInt m \<and> total' = JInt n \<and> 0 < n"
  then show "used_percent ops used total' =
        ([(NInt (m * 100), NInt n)],
         case int_truediv ops (m * 100) n of
           None \<Rightarrow> Raises OverflowError
         | Some f \<Rightarrow> Returns (fmt2 ops f @ ''%''))"
    by (auto simp: used_percent_def divide_def format_2f_def split: option.splits)
next
  show "\<forall>d\<in>set (fst (used_percent ops used total')). \<not> is_zero ops (snd d)"
    by (rule used_percent_divisions)
next
  show "\<forall>d\<in>set (fst (storage_usage ops info)). \<not> is_zero ops (snd d)"
    unfolding storage_usage_def by (rule usage_displays_divisions)
next
  assume "float_ops_ok ops"
  then show "snd (used_percent ops used total') \<noteq> Raises ZeroDivisionError"
    by (rule used_percent_no_zero_division)
next
  assume "float_ops_ok ops"
  then show "snd (storage_usage ops info) \<noteq> Raises ZeroDivisionError"
    unfolding storage_usage_def by (rule usage_displays_no_zero_division)
next
  fix ad td ud p assume "snd (storage_usage ops info) = Returns (ad, td, ud, p)"
  then show "snd (used_percent ops (get_or_na info ''used'') (get_or_na info ''total'')) = Returns p"
    unfolding storage_usage_def by (rule usage_displays_percent)
next
  show "\<forall>d\<in>set (fst (show_storages ops storage_data storages)). \<not> is_zero ops (snd d)"
    by (rule show_storages_divisions)
next
  assume "float_ops_ok ops"
  then show "snd (show_storages ops storage_data storages) \<noteq> Raises ZeroDivisionError"
    by (rule show_storages_no_zero_division)
qed

declare decimal_text.simps [simp del]

lemma centi_fmt2: "fmt2 centi_ops 3333 = ''33.33''"
  by (simp add: centi_ops_def decimal_text.simps [of 33] decimal_text.simps [of 3])

lemma centi_ops_ok: "float_ops_ok centi_ops"
  by (simp add: float_ops_ok_def centi_ops_def)

theorem used_percent_guarded_witness:
  "used_percent centi_ops (JInt 1) (JInt 3) = ([(NInt 100, NInt 3)], Returns ''33.33%'') \<and>
   used_percent centi_ops (JInt 50) (JInt 0) = ([], Returns ''N/A'') \<and>
   used_percent centi_ops (JInt 50) (JStr ''N/A'') = ([], Returns ''N/A'') \<and>
   snd (used_percent centi_ops (JInt 1) (JInt 3)) \<noteq> Raises ZeroDivisionError"
proof -
  note t = used_percent_guarded [of "JInt 1" "JInt 3" centi_ops "[]" "[]" "[]"]
  have a: "used_percent centi_ops (JInt 1) (JInt 3) = ([(NInt 100, NInt 3)], Returns ''33.33%'')"
    using t [THEN conjunct2, THEN conjunct2, THEN conjunct2, THEN conjunct1, rule_format, of 1 3]
      centi_fmt2
    by (simp add: centi_ops_def)
  have b: "used_percent centi_ops (JInt 50) (JInt 0) = ([], Returns ''N/A'')"
    using used_percent_guarded [of "JInt 50" "JInt 0" centi_ops "[]" "[]" "[]", THEN conjunct2, THEN conjunct1,
        rule_format, of "NInt 0"]
    by simp
  have c: "used_percent centi_ops (JInt 50) (JStr ''N/A'') = ([], Returns ''N/A'')"
    using used_percent_guarded [of "JInt 50" "JStr ''N/A''" centi_ops "[]" "[]" "[]", THEN conjunct1]
    by simp
  have d: "snd (used_percent centi_ops (JInt 1) (JInt 3)) \<noteq> Raises ZeroDivisionError"
    using t [THEN conjunct2, THEN conjunct2, THEN conjunct2, THEN conjunct2, THEN conjunct2,
        THEN conjunct2, THEN conjunct1] centi_ops_ok
    by simp
  from a b c d show ?thesis by simp
qed

section \<open>Properties of the install script\<close>



lemma occur_in_order_prepend: "occur_in_order ms t \<Longrightarrow> occur_in_order ms (s @ t)"
proof (cases ms)
  case Nil
  then show ?thesis by simp
next
  case (Cons m ms')
  assume "occur_in_order ms t"
  with Cons obtain a b where "t = a @ m @ b" "occur_in_order ms' b"
    by auto
  then have "s @ t = (s @ a) @ m @ b \<and> occur_in_order ms' b"
    by simp
  with Cons show ?thesis
    by (metis occur_in_order.simps(2))
qed

lemma occur_in_order_append:
  "occur_in_order ms1 s \<Longrightarrow> occur_in_order ms2 t \<Longrightarrow> occur_in_order (ms1 @ ms2) (s @ t)"
proof (induction ms1 arbitrary: s)
  case Nil
  then show ?case by (simp add: occur_in_order_prepend)
next
  case (Cons m ms1)
  from Cons.prems(1) obtain a b where ab: "s = a @ m @ b" "occur_in_order ms1 b"
    by auto
  from Cons.IH [OF ab(2) Cons.prems(2)] have "occur_in_order (ms1 @ ms2) (b @ t)" .
  moreover have "s @ t = a @ m @ (b @ t)"
    using ab(1) by simp
  ultimately show ?case
    by (metis append_Cons occur_in_order.simps(2))
qed

lemma occur_in_order_lines: "subseq ms ls \<Longrightarrow> occur_in_order (map ln ms) (unlines ls)"
proof (induction rule: list_emb.induct)
  case (list_emb_Nil ys)
  then show ?case by simp
next
  case (list_emb_Cons xs ys y)
  have "unlines (y # ys) = ln y @ unlines ys"
    by (simp add: unlines_def)
  with list_emb_Cons.IH show ?case
    by (simp add: occur_in_order_prepend)
next
  case (list_emb_Cons2 x y xs ys)
  have "unlines (y # ys) = [] @ ln x @ unlines ys"
    using list_emb_Cons2.hyps(1) by (simp add: unlines_def)
  with list_emb_Cons2.IH show ?case
    by (metis list.simps(9) occur_in_order.simps(2))
qed

lemma subseq_step_eq: "subseq xs ys \<Longrightarrow> subseq (x # xs) (x # ys)"
  by simp

lemma subseq_step_skip: "subseq xs ys \<Longrightarrow> subseq xs (y # ys)"
  by (rule list_emb_Cons)

lemma head_sections_subseq:
  "subseq (head_sections v u) (head_lines v p u)"
  unfolding head_sections_def head_lines_def
  by (intro subseq_step_eq subseq_step_skip list_emb_Nil)

lemma custom_sections_subseq:
  "subseq (custom_sections ms) (custom_lines u (custom_modules_str ms))"
  unfolding custom_sections_def custom_lines_def
  by (intro subseq_step_eq subseq_step_skip list_emb_Nil)

lemma tail_sections_subseq:
  "subseq tail_sections (tail_lines v p u ap)"
  unfolding tail_sections_def tail_lines_def
  by (intro subseq_step_eq subseq_step_skip list_emb_Nil)

text \<open>
  C8. For every version, password, user and list of modules, the script holds the lines of
  \<open>sections\<close>, each with its line end, one after the other in this order: the update of the
  system, the installation of the dependencies, the creation of the database role, the
  checkout of the sources, the virtual environment, wkhtmltopdf, the copy of the custom
  modules when there is a module, the configuration file, the service unit, and the start
  of the service.
\<close>

theorem install_script_sections:
  "occur_in_order (map ln (sections odoo_version odoo_user custom_modules))
     (snd (create_odoo_install_script odoo_version db_pass odoo_user custom_modules))"
proof -
  have h: "occur_in_order (map ln (head_sections odoo_version odoo_user))
      (unlines (head_lines odoo_version db_pass odoo_user))"
    by (rule occur_in_order_lines [OF head_sections_subseq])
  have t: "occur_in_order (map ln tail_sections)
      (unlines (tail_lines odoo_version db_pass odoo_user (addons_path custom_modules)))"
    by (rule occur_in_order_lines [OF tail_sections_subseq])
  show ?thesis
  proof (cases "custom_modules = []")
    case True
    with occur_in_order_append [OF h t] show ?thesis
      by (simp add: create_odoo_install_script_def script_content_def sections_def)
  next
    case False
    have c: "occur_in_order (map ln (custom_sections custom_modules))
        (unlines (custom_lines odoo_user (custom_modules_str custom_modules)))"
      by (rule occur_in_order_lines [OF custom_sections_subseq])
    from occur_in_order_append [OF h occur_in_order_append [OF c t]] False show ?thesis
      by (simp add: create_odoo_install_script_def script_content_def sections_def)
  qed
qed

theorem install_script_sections_witness:
  "occur_in_order (map ln (sections ''18.0'' ''odoo18'' [''sale_ext'']))
     (snd (create_odoo_install_script ''18.0'' ''admin2025'' ''odoo18'' [''sale_ext'']))"
  by (rule install_script_sections)












text \<open>
  The line of the \<open>for\<close> names the modules in quotes, joined by a comma and a space, as
  \<open>custom_modules_str\<close> has them. For the two modules \<open>a\<close> and \<open>b\<close> the words of the
  loop are then \<open>"a",\<close> and \<open>"b"\<close>.
\<close>

lemma for_line_two_modules:
  \<open>custom_lines u (custom_modules_str [''a'', ''b'']) ! 7 = ''for module in "a", "b"; do''\<close>
  by (simp add: custom_lines_def custom_modules_str_def dq_def)





end
